theory Spec2Isabelle
  imports Main
begin

section \<open>Values, buffers and requests\<close>

text \<open>
  The multipart-upload core of the client library: \<open>streamUpload\<close> (with its local
  function \<open>calculatePartSize\<close>), \<open>doPutObject\<close> and \<open>completeMultipartUpload\<close>.

  JavaScript slots that the code compares with \<open>===\<close> against \<open>null\<close>, the empty
  string or a digest (the content type, an entity tag, a header value) hold a \<open>jsval\<close>.
  A \<open>Buffer\<close> is a sequence of bytes; a HOL \<open>char\<close> is one byte, so a buffer is a
  \<open>string\<close> and \<open>data.length\<close> is \<open>int (length data)\<close>. Sizes are JavaScript numbers
  holding integers (exact below \<open>2 ^ 53\<close>) and are modelled as \<open>int\<close>.
\<close>

datatype jsval = JUndefined | JNull | JStr string | JNum int

type_synonym buffer = string

text \<open>The \<open>params\<close> object: only these five properties are read.\<close>

record params =
  host :: string
  port :: int
  protocol :: string
  accessKey :: string
  secretKey :: string

text \<open>The \<open>requestParams\<close> object literal handed to the signer and to the transport.\<close>

record requestParams =
  req_host :: string
  req_port :: int
  req_protocol :: string
  req_path :: string
  req_method :: string
  req_headers :: "(string \<times> jsval) list"

text \<open>What the transport's response callback receives: \<open>response.statusCode\<close>,
  \<open>response.headers\<close> and the body (read only by the error parser).\<close>

record response =
  statusCode :: int
  resp_headers :: "(string \<times> string) list"
  resp_body :: buffer

text \<open>
  One entry of the network log: the request descriptor as built, the payload hash given
  to the signer, the signed descriptor passed to \<open>transport.request\<close> and the body piped
  into the request.
\<close>

record exchange =
  built :: requestParams
  payloadHash :: string
  wire :: requestParams
  body :: buffer

text \<open>
  The transport is a collaborator that answers every request with a response. Its answer
  may depend on everything sent before, so it is a function of the log, the signed
  request and the body.
\<close>

type_synonym transport = "exchange list \<Rightarrow> requestParams \<Rightarrow> buffer \<Rightarrow> response"

text \<open>
  An error passed to a callback is either a JavaScript string (the two size messages) or
  an error object (what \<open>parseError\<close> extracts from a response, or what a stream emits
  with its \<open>error\<close> event). Both are truthy.
\<close>

datatype 'e js_error = ErrString string | ErrObject 'e

text \<open>An element of \<open>partsArray\<close> and of \<open>etags\<close>: an object with \<open>part\<close> and \<open>etag\<close>.\<close>

record part_entry =
  part :: nat
  etag :: jsval

text \<open>The objects given to the \<open>xml\<close> package: an element with children, or content.\<close>

datatype xml = Element string "xml list" | Content jsval

text \<open>
  The imported collaborators, passed explicitly: the digests of \<open>Crypto.createHash\<close>,
  \<open>uriResourceEscape\<close>, \<open>signV4\<close> (which returns the descriptor with its authentication
  headers set), \<open>parseError\<close> (the error object it reports to the callback) and \<open>Xml\<close>.
\<close>

record 'e collaborators =
  md5_hex :: "buffer \<Rightarrow> string"
  md5_base64 :: "buffer \<Rightarrow> string"
  sha256_hex :: "buffer \<Rightarrow> string"
  uriResourceEscape :: "string \<Rightarrow> string"
  signV4 :: "requestParams \<Rightarrow> string \<Rightarrow> string \<Rightarrow> string \<Rightarrow> requestParams"
  parseError :: "response \<Rightarrow> 'e"
  Xml :: "xml \<Rightarrow> string"

section \<open>The part-size calculator\<close>

text \<open>
  \<open>Math.floor(size / 9999)\<close> on an integer below \<open>2 ^ 53\<close> is the integer quotient
  rounded towards minus infinity, which is \<open>div\<close> on \<open>int\<close>.
\<close>

definition calculatePartSize :: "int \<Rightarrow> int" where
  "calculatePartSize size' =
     (let minimumPartSize = 5 * 1024 * 1024;
          maximumPartSize = 5 * 1025 * 1024 * 1024;
          partSize = size' div 9999
      in if partSize > maximumPartSize then maximumPartSize
         else max minimumPartSize partSize)"

section \<open>Strings the code builds\<close>

text \<open>
  \<open>String.prototype.toLowerCase\<close>, on the ASCII range (a hexadecimal digest has no other
  character): the letters \<open>A\<close> to \<open>Z\<close> move to \<open>a\<close> to \<open>z\<close>.
\<close>

definition lowerChar :: "char \<Rightarrow> char" where
  "lowerChar ch =
     (let n = (of_char ch :: nat) in if 65 \<le> n \<and> n \<le> 90 then char_of (n + 32) else ch)"

definition toLowerCase :: "string \<Rightarrow> string" where
  "toLowerCase s = map lowerChar s"

text \<open>The decimal digits a template literal writes for a part number.\<close>

definition digitChar :: "nat \<Rightarrow> char" where
  "digitChar d = ''0123456789'' ! d"

function toString :: "nat \<Rightarrow> string" where
  "toString n = (if n < 10 then [digitChar n] else toString (n div 10) @ [digitChar (n mod 10)])"
  by pat_completeness auto
termination
  by (relation "measure id") auto

declare toString.simps [simp del]

section \<open>The part uploader\<close>

text \<open>
  A readable stream, as its consumer sees it: the chunks it delivers and then either its
  end or an \<open>error\<close> event.
\<close>

datatype 'e readable = Ended "buffer list" | Failed "buffer list" 'e

text \<open>
  \<open>doPutObject(transport, params, bucket, key, contentType, size, uploadId, part, r, cb)\<close>.
  The part number is \<open>None\<close> when the argument is absent; \<open>if (part)\<close> holds for a
  number other than zero. The result is what \<open>cb\<close> receives (\<open>Inl\<close> the error, \<open>Inr\<close>
  the entity tag, \<open>undefined\<close> when the response has no such header) and the network log;
  it is \<open>None\<close> when an exception escapes and \<open>cb\<close> is never called.

  \<open>Concat\<close> hands over the concatenation of the chunks once the stream has ended; a
  stream that fails reaches only the \<open>error\<close> listener. A stream delivers no empty
  chunk, so the concatenation is empty exactly when nothing was written, and then \<open>Concat\<close>
  hands over the empty array instead of a \<open>Buffer\<close>. Its \<open>length\<close> is 0: against a
  declared size other than 0 the size check fails as for a buffer, and against the
  declared size 0 the check passes and \<open>hash256.update\<close> rejects the array with a
  \<open>TypeError\<close>, before any request is built.
\<close>

definition doPutObject ::
  "'e collaborators \<Rightarrow> transport \<Rightarrow> params \<Rightarrow> string \<Rightarrow> string \<Rightarrow> jsval \<Rightarrow> int \<Rightarrow> string \<Rightarrow>
   nat option \<Rightarrow> 'e readable \<Rightarrow> exchange list \<Rightarrow>
   ('e js_error + jsval) option \<times> exchange list" where
  "doPutObject c tr ps bucket key contentType size' uploadId partNo r net =
     (let query = (case partNo of
                     None \<Rightarrow> []
                   | Some n \<Rightarrow> if n \<noteq> 0 then ''?partNumber='' @ toString n @ ''&uploadId='' @ uploadId
                              else []);
          contentType' = (if contentType = JNull \<or> contentType = JStr []
                          then JStr ''application/octet-stream'' else contentType)
      in case r of
           Failed chunks e \<Rightarrow> (Some (Inl (ErrObject e)), net)
         | Ended chunks \<Rightarrow>
             (let data = concat chunks in
              if int (length data) \<noteq> size'
              then (Some (Inl (ErrString ''actual size !== specified size'')), net)
              else if data = [] then (None, net)
              else
                (let sha256 = toLowerCase (sha256_hex c data);
                     md5 = md5_base64 c data;
                     requestParams =
                       \<lparr>req_host = host ps, req_port = port ps, req_protocol = protocol ps,
                        req_path = ''/'' @ bucket @ ''/'' @ uriResourceEscape c key @ query,
                        req_method = ''PUT'',
                        req_headers = [(''Content-Length'', JNum size'),
                                       (''Content-Type'', contentType'),
                                       (''Content-MD5'', JStr md5)]\<rparr>;
                     signed = signV4 c requestParams sha256 (accessKey ps) (secretKey ps);
                     resp = tr net signed data
                 in (Some (if statusCode resp \<noteq> 200 then Inl (ErrObject (parseError c resp))
                           else Inr (case map_of (resp_headers resp) ''etag'' of
                                       None \<Rightarrow> JUndefined
                                     | Some v \<Rightarrow> JStr v)),
                     net @ [\<lparr>built = requestParams, payloadHash = sha256, wire = signed,
                             body = data\<rparr>]))))"

section \<open>The orchestrator\<close>

text \<open>
  \<open>BlockStream2\<close> is the package \<open>block-stream2\<close>, outside the repository. With
  \<open>zeroPadding: false\<close> it emits a block each time \<open>size\<close> bytes have accumulated and, when
  its input ends, the bytes left over if there are any; a size of zero stands for 512.
\<close>

function chop :: "nat \<Rightarrow> 'a list \<Rightarrow> 'a list list" where
  "chop n xs =
     (if n = 0 then []
      else if n \<le> length xs then take n xs # chop n (drop n xs)
      else if xs = [] then [] else [xs])"
  by pat_completeness auto
termination
  by (relation "measure (\<lambda>(n, xs). length xs)") auto

declare chop.simps [simp del]

definition BlockStream2 :: "nat \<Rightarrow> buffer list \<Rightarrow> buffer list" where
  "BlockStream2 size' chunks = chop (if size' = 0 then 512 else size') (concat chunks)"

text \<open>
  The variables of \<open>streamUpload\<close> that its callbacks share (\<open>part\<close>, \<open>errored\<close>, \<open>etags\<close>,
  \<open>totalSeen\<close>), the caller's \<open>partsArray\<close>, which \<open>shift\<close> mutates, and the network
  log. The \<open>trace\<close> is an observer added to the model: it records, by part number, each
  digest computed for the resume comparison and each invocation of \<open>doPutObject\<close>.
  \<open>thrown\<close> is set when an exception has escaped from \<open>doPutObject\<close>: \<open>done()\<close> is never
  called then, so no further block is delivered, the flush function does not run and the
  callback of \<open>streamUpload\<close> is never called.
\<close>

datatype event = HashPart nat | PutPart nat

record 'e orchestrator =
  part' :: nat
  errored :: "'e js_error option"
  etags :: "part_entry list"
  totalSeen :: int
  partsArray :: "part_entry list"
  sent :: "exchange list"
  trace :: "event list"
  thrown :: bool

text \<open>The callback given to \<open>doPutObject\<close> (lines 113 to 126), followed by \<open>done()\<close>.\<close>

definition putCallback :: "nat \<Rightarrow> 'e js_error + jsval \<Rightarrow> 'e orchestrator \<Rightarrow> 'e orchestrator" where
  "putCallback curPart res s =
     (if errored s \<noteq> None then s
      else case res of
             Inl e \<Rightarrow> s\<lparr>errored := Some e\<rparr>
           | Inr t \<Rightarrow> s\<lparr>etags := etags s @ [\<lparr>part = curPart, etag = t\<rparr>]\<rparr>)"

text \<open>
  Lines 108 to 126: the buffer becomes a fresh stream and goes to \<open>doPutObject\<close>, whose
  callback runs unless an exception escaped.
\<close>

definition uploadPart ::
  "'e collaborators \<Rightarrow> transport \<Rightarrow> params \<Rightarrow> string \<Rightarrow> string \<Rightarrow> jsval \<Rightarrow> string \<Rightarrow>
   nat \<Rightarrow> buffer \<Rightarrow> 'e orchestrator \<Rightarrow> 'e orchestrator" where
  "uploadPart c tr ps bucket key contentType uploadId curPart data s =
     (case doPutObject c tr ps bucket key contentType (int (length data)) uploadId
             (Some curPart) (Ended [data]) (sent s) of
        (None, net) \<Rightarrow>
          s\<lparr>sent := net, trace := trace s @ [PutPart curPart], thrown := True\<rparr>
      | (Some res, net) \<Rightarrow>
          putCallback curPart res (s\<lparr>sent := net, trace := trace s @ [PutPart curPart]\<rparr>))"

text \<open>
  The transform function of the \<open>Through2\<close> object stream, run to its \<open>done()\<close>: the next
  block is not delivered before.
\<close>

definition transform ::
  "'e collaborators \<Rightarrow> transport \<Rightarrow> params \<Rightarrow> string \<Rightarrow> string \<Rightarrow> jsval \<Rightarrow> string \<Rightarrow>
   int \<Rightarrow> int \<Rightarrow> 'e orchestrator \<Rightarrow> buffer \<Rightarrow> 'e orchestrator" where
  "transform c tr ps bucket key contentType uploadId partSize totalSize s data =
     (if errored s \<noteq> None then s
      else if int (length data) < partSize \<and> totalSize - totalSeen s \<noteq> int (length data)
      then s\<lparr>errored := Some (ErrString ''actual size does not match specified size'')\<rparr>
      else
        (let curPart = part' s;
             s1 = s\<lparr>totalSeen := totalSeen s + int (length data), part' := part' s + 1\<rparr>
         in case partsArray s1 of
              [] \<Rightarrow> uploadPart c tr ps bucket key contentType uploadId curPart data s1
            | curJob # rest \<Rightarrow>
                (let md5 = toLowerCase (md5_hex c data);
                     s2 = s1\<lparr>partsArray := rest, trace := trace s1 @ [HashPart curPart]\<rparr>
                 in if etag curJob = JStr md5
                    then s2\<lparr>etags := etags s2 @ [\<lparr>part = curPart, etag = JStr md5\<rparr>]\<rparr>
                    else uploadPart c tr ps bucket key contentType uploadId curPart data s2)))"

text \<open>The flush function of the object stream: what \<open>cb\<close> receives.\<close>

definition flush :: "int \<Rightarrow> 'e orchestrator \<Rightarrow> 'e js_error + part_entry list" where
  "flush totalSize s =
     (case errored s of
        Some e \<Rightarrow> Inl e
      | None \<Rightarrow>
          if totalSeen s \<noteq> totalSize
          then Inl (ErrString ''actual size does not match specified size'')
          else Inr (etags s))"

definition initialState :: "part_entry list \<Rightarrow> exchange list \<Rightarrow> 'e orchestrator" where
  "initialState partsArray0 net =
     \<lparr>part' = 1, errored = None, etags = [], totalSeen = 0, partsArray = partsArray0,
      sent = net, trace = [], thrown = False\<rparr>"

text \<open>A block reaches the transform function unless an exception has stopped the run.\<close>

definition deliver ::
  "'e collaborators \<Rightarrow> transport \<Rightarrow> params \<Rightarrow> string \<Rightarrow> string \<Rightarrow> jsval \<Rightarrow> string \<Rightarrow>
   int \<Rightarrow> int \<Rightarrow> 'e orchestrator \<Rightarrow> buffer \<Rightarrow> 'e orchestrator" where
  "deliver c tr ps bucket key contentType uploadId partSize totalSize s data =
     (if thrown s then s
      else transform c tr ps bucket key contentType uploadId partSize totalSize s data)"

text \<open>
  The object stream of \<open>streamUpload\<close> on the blocks it is given: every block goes through
  the transform function in turn, then the flush function runs. The result is what
  \<open>cb\<close> receives, \<open>None\<close> when it is never called, with the final state.
\<close>

definition streamUploadBlocks ::
  "'e collaborators \<Rightarrow> transport \<Rightarrow> params \<Rightarrow> string \<Rightarrow> string \<Rightarrow> jsval \<Rightarrow> string \<Rightarrow>
   part_entry list \<Rightarrow> int \<Rightarrow> buffer list \<Rightarrow> exchange list \<Rightarrow>
   ('e js_error + part_entry list) option \<times> 'e orchestrator" where
  "streamUploadBlocks c tr ps bucket key contentType uploadId partsArray0 totalSize bs net =
     (let partSize = calculatePartSize totalSize;
          s = foldl (deliver c tr ps bucket key contentType uploadId partSize totalSize)
                (initialState partsArray0 net) bs
      in (if thrown s then None else Some (flush totalSize s), s))"

text \<open>
  \<open>streamUpload(transport, params, bucket, key, contentType, uploadId, partsArray,
  totalSize, r, cb)\<close> on an input stream that delivers the chunks \<open>r\<close> and ends.
\<close>

definition streamUpload ::
  "'e collaborators \<Rightarrow> transport \<Rightarrow> params \<Rightarrow> string \<Rightarrow> string \<Rightarrow> jsval \<Rightarrow> string \<Rightarrow>
   part_entry list \<Rightarrow> int \<Rightarrow> buffer list \<Rightarrow> exchange list \<Rightarrow>
   ('e js_error + part_entry list) option \<times> 'e orchestrator" where
  "streamUpload c tr ps bucket key contentType uploadId partsArray0 totalSize r net =
     streamUploadBlocks c tr ps bucket key contentType uploadId partsArray0 totalSize
       (BlockStream2 (nat (calculatePartSize totalSize)) r) net"

section \<open>The finalizer\<close>





section \<open>Sample collaborators\<close>

text \<open>
  Concrete collaborators on which the definitions above can be evaluated: digests that
  tell a three-byte buffer from any other, a signer that adds one header, a server that
  accepts every request, a server that refuses every request and a server that refuses
  the second request it receives.
\<close>

definition sampleCollaborators :: "string collaborators" where
  "sampleCollaborators =
     \<lparr>md5_hex = (\<lambda>d. if length d = 3 then ''900150983cd24fb0d6963f7d28e17f72''
                      else ''d41d8cd98f00b204e9800998ecf8427e''),
      md5_base64 = (\<lambda>d. if length d = 3 then ''kAFQmDzST7DWlj99KOF/cg==''
                         else ''1B2M2Y8AsgTpgAmY7PhCfg==''),
      sha256_hex = (\<lambda>d. if length d = 3 then ''ba7816bf'' else ''e3b0c442''),
      uriResourceEscape = (\<lambda>k. k),
      signV4 = (\<lambda>rp h ak sk.
                  rp\<lparr>req_headers := req_headers rp @ [(''x-amz-content-sha256'', JStr h)]\<rparr>),
      parseError = (\<lambda>resp. ''InternalError''),
      Xml = (\<lambda>x. ''<CompleteMultipartUpload/>'')\<rparr>"

definition sampleParams :: params where
  "sampleParams =
     \<lparr>host = ''localhost'', port = 9000, protocol = ''http:'', accessKey = ''key'',
      secretKey = ''secret''\<rparr>"

definition acceptingServer :: transport where
  "acceptingServer l q b = \<lparr>statusCode = 200, resp_headers = [(''etag'', ''tag'')], resp_body = []\<rparr>"

definition refusingServer :: transport where
  "refusingServer l q b = \<lparr>statusCode = 500, resp_headers = [], resp_body = ''<Error/>''\<rparr>"

definition refusingSecondServer :: transport where
  "refusingSecondServer l q b =
     (if length l = 1 then \<lparr>statusCode = 500, resp_headers = [], resp_body = ''<Error/>''\<rparr>
      else \<lparr>statusCode = 200, resp_headers = [(''etag'', ''tag'')], resp_body = []\<rparr>)"

section \<open>Prefixes of a run\<close>

text \<open>
  The state of the orchestrator once the first \<open>k\<close> of the blocks \<open>bs\<close> have gone through the
  transform function.
\<close>

definition stateAfter ::
  "'e collaborators \<Rightarrow> transport \<Rightarrow> params \<Rightarrow> string \<Rightarrow> string \<Rightarrow> jsval \<Rightarrow> string \<Rightarrow>
   part_entry list \<Rightarrow> int \<Rightarrow> buffer list \<Rightarrow> exchange list \<Rightarrow> nat \<Rightarrow> 'e orchestrator" where
  "stateAfter c tr ps bucket key contentType uploadId partsArray0 totalSize bs net k =
     foldl (deliver c tr ps bucket key contentType uploadId (calculatePartSize totalSize) totalSize)
       (initialState partsArray0 net) (take k bs)"

section \<open>The answers of the transport\<close>

text \<open>
  The answers the transport gave to the exchanges \<open>xs\<close>, sent in this order on top of the
  log \<open>log\<close>: each answer is a function of what was sent before, the signed request and
  the body.
\<close>

fun responses :: "transport \<Rightarrow> exchange list \<Rightarrow> exchange list \<Rightarrow> response list" where
  "responses tr log [] = []"
| "responses tr log (x # xs) = tr log (wire x) (body x) # responses tr (log @ [x]) xs"

definition accepted :: "response \<Rightarrow> bool" where
  "accepted resp = (statusCode resp = 200)"

text \<open>
  What the variable \<open>errored\<close> may hold when the part uploads so far were answered by
  \<open>rs\<close>: nothing or the size message while every upload was accepted, and the parsed error
  of the last answer once that answer, and no answer before it, is a refusal.
\<close>

definition agrees :: "'e collaborators \<Rightarrow> 'e js_error option \<Rightarrow> response list \<Rightarrow> bool" where
  "agrees c err rs =
     (case err of
        None \<Rightarrow> list_all accepted rs
      | Some e \<Rightarrow>
          (e = ErrString ''actual size does not match specified size'' \<and> list_all accepted rs)
          \<or> (rs \<noteq> [] \<and> list_all accepted (butlast rs) \<and> \<not> accepted (last rs)
              \<and> e = ErrObject (parseError c (last rs))))"

section \<open>Properties of the part-size calculator\<close>

text \<open>
  C2. For every total size \<open>S\<close> the calculator returns \<open>max (5 MiB) (S div 9999)\<close> clamped
  above by the ceiling \<open>5 * 1025 * 1024 * 1024\<close>. When \<open>S div 9999\<close> is at most 5 MiB the
  result is exactly 5 MiB; for \<open>S = 9999 * 10 MiB\<close> it is exactly 10 MiB; when
  \<open>S div 9999\<close> exceeds the ceiling it is the ceiling; and the result always lies between
  5 MiB and the ceiling.
\<close>

theorem calculatePartSize_spec:
  "calculatePartSize S = min (5 * 1025 * 1024 * 1024) (max (5 * 1024 * 1024) (S div 9999))
   \<and> (S div 9999 \<le> 5 * 1024 * 1024 \<longrightarrow> calculatePartSize S = 5 * 1024 * 1024)
   \<and> calculatePartSize (9999 * (10 * 1024 * 1024)) = 10 * 1024 * 1024
   \<and> (S div 9999 > 5 * 1025 * 1024 * 1024 \<longrightarrow> calculatePartSize S = 5 * 1025 * 1024 * 1024)
   \<and> 5 * 1024 * 1024 \<le> calculatePartSize S
   \<and> calculatePartSize S \<le> 5 * 1025 * 1024 * 1024"
  by (simp add: calculatePartSize_def Let_def)

theorem calculatePartSize_spec_witness:
  "calculatePartSize (11 * 1024 * 1024) = 5 * 1024 * 1024
   \<and> calculatePartSize (9999 * (5 * 1025 * 1024 * 1024) + 9999) = 5 * 1025 * 1024 * 1024
   \<and> calculatePartSize (9999 * (10 * 1024 * 1024)) = 10 * 1024 * 1024"
  using calculatePartSize_spec [of "11 * 1024 * 1024"]
    calculatePartSize_spec [of "9999 * (5 * 1025 * 1024 * 1024) + 9999"]
  by simp

section \<open>How one block changes the state\<close>

lemma doPutObject_Ended:
  "doPutObject c tr ps bucket key ct size' uploadId partNo (Ended chunks) net =
     (if int (length (concat chunks)) \<noteq> size'
      then (Some (Inl (ErrString ''actual size !== specified size'')), net)
      else if concat chunks = [] then (None, net)
      else
        (let data = concat chunks;
             rp = \<lparr>req_host = host ps, req_port = port ps, req_protocol = protocol ps,
                   req_path = ''/'' @ bucket @ ''/'' @ uriResourceEscape c key @
                     (case partNo of None \<Rightarrow> [] | Some n \<Rightarrow>
                        if n \<noteq> 0 then ''?partNumber='' @ toString n @ ''&uploadId='' @ uploadId else []),
                   req_method = ''PUT'',
                   req_headers = [(''Content-Length'', JNum size'),
                                  (''Content-Type'', if ct = JNull \<or> ct = JStr [] then JStr ''application/octet-stream'' else ct),
                                  (''Content-MD5'', JStr (md5_base64 c data))]\<rparr>;
             h = toLowerCase (sha256_hex c data);
             signed = signV4 c rp h (accessKey ps) (secretKey ps);
             resp = tr net signed data
         in (Some (if statusCode resp \<noteq> 200 then Inl (ErrObject (parseError c resp))
                   else Inr (case map_of (resp_headers resp) ''etag'' of
                               None \<Rightarrow> JUndefined | Some v \<Rightarrow> JStr v)),
             net @ [\<lparr>built = rp, payloadHash = h, wire = signed, body = data\<rparr>])))"
  by (simp add: doPutObject_def Let_def)

lemma transform_latched:
  "errored s \<noteq> None \<Longrightarrow> transform c tr ps bucket key ct uploadId P tot s d = s"
  by (simp add: transform_def)

lemma uploadPart_result:
  "d \<noteq> [] \<Longrightarrow>
   \<exists>x. snd (doPutObject c tr ps bucket key ct (int (length d)) uploadId (Some p) (Ended [d]) net)
         = net @ [x] \<and>
     req_method (built x) = ''PUT'' \<and> body x = d \<and>
     (\<forall>s :: 'e orchestrator. errored s = None \<longrightarrow> sent s = net \<longrightarrow>
        uploadPart c tr ps bucket key ct uploadId p d s =
          (if statusCode (tr net (wire x) d) \<noteq> 200
           then s\<lparr>sent := net @ [x], trace := trace s @ [PutPart p],
                  errored := Some (ErrObject (parseError c (tr net (wire x) d)))\<rparr>
           else s\<lparr>sent := net @ [x], trace := trace s @ [PutPart p],
                  etags := etags s @ [\<lparr>part = p, etag =
                    (case map_of (resp_headers (tr net (wire x) d)) ''etag'' of
                       None \<Rightarrow> JUndefined | Some v \<Rightarrow> JStr v)\<rparr>]\<rparr>))"
  by (simp add: uploadPart_def putCallback_def doPutObject_Ended Let_def)

lemma uploadPart_empty:
  "uploadPart c tr ps bucket key ct uploadId p [] s =
     s\<lparr>sent := sent s, trace := trace s @ [PutPart p], thrown := True\<rparr>"
  by (simp add: uploadPart_def doPutObject_Ended)

lemma transform_cases:
  fixes s :: "'e orchestrator"
  obtains
    (latched) "errored s \<noteq> None" "transform c tr ps bucket key ct uploadId P tot s d = s"
  | (mismatch) "errored s = None" "int (length d) < P" "tot - totalSeen s \<noteq> int (length d)"
      "transform c tr ps bucket key ct uploadId P tot s d =
         s\<lparr>errored := Some (ErrString ''actual size does not match specified size'')\<rparr>"
  | (resumed) r rest where "errored s = None"
      "\<not> (int (length d) < P \<and> tot - totalSeen s \<noteq> int (length d))"
      "partsArray s = r # rest" "etag r = JStr (toLowerCase (md5_hex c d))"
      "transform c tr ps bucket key ct uploadId P tot s d =
         s\<lparr>totalSeen := totalSeen s + int (length d), part' := Suc (part' s), partsArray := rest,
           trace := trace s @ [HashPart (part' s)],
           etags := etags s @ [\<lparr>part = part' s, etag = etag r\<rparr>]\<rparr>"
  | (uploaded) x t where "errored s = None"
      "\<not> (int (length d) < P \<and> tot - totalSeen s \<noteq> int (length d))"
      "partsArray s = [] \<or> etag (hd (partsArray s)) \<noteq> JStr (toLowerCase (md5_hex c d))"
      "req_method (built x) = ''PUT''" "body x = d"
      "statusCode (tr (sent s) (wire x) d) = 200" "d \<noteq> []"
      "transform c tr ps bucket key ct uploadId P tot s d =
         s\<lparr>totalSeen := totalSeen s + int (length d), part' := Suc (part' s),
           partsArray := tl (partsArray s),
           trace := trace s @ (if partsArray s = [] then [] else [HashPart (part' s)]) @ [PutPart (part' s)],
           sent := sent s @ [x],
           etags := etags s @ [\<lparr>part = part' s, etag = t\<rparr>]\<rparr>"
  | (failed) x where "errored s = None"
      "\<not> (int (length d) < P \<and> tot - totalSeen s \<noteq> int (length d))"
      "partsArray s = [] \<or> etag (hd (partsArray s)) \<noteq> JStr (toLowerCase (md5_hex c d))"
      "req_method (built x) = ''PUT''" "body x = d"
      "statusCode (tr (sent s) (wire x) d) \<noteq> 200" "d \<noteq> []"
      "transform c tr ps bucket key ct uploadId P tot s d =
         s\<lparr>totalSeen := totalSeen s + int (length d), part' := Suc (part' s),
           partsArray := tl (partsArray s),
           trace := trace s @ (if partsArray s = [] then [] else [HashPart (part' s)]) @ [PutPart (part' s)],
           sent := sent s @ [x],
           errored := Some (ErrObject (parseError c (tr (sent s) (wire x) d)))\<rparr>"
  | (threw) "errored s = None"
      "\<not> (int (length d) < P \<and> tot - totalSeen s \<noteq> int (length d))"
      "partsArray s = [] \<or> etag (hd (partsArray s)) \<noteq> JStr (toLowerCase (md5_hex c d))"
      "d = []"
      "transform c tr ps bucket key ct uploadId P tot s d =
         s\<lparr>totalSeen := totalSeen s + int (length d), part' := Suc (part' s),
           partsArray := tl (partsArray s),
           trace := trace s @ (if partsArray s = [] then [] else [HashPart (part' s)]) @ [PutPart (part' s)],
           thrown := True\<rparr>"
proof (cases "errored s \<noteq> None")
  case True
  then show ?thesis using latched by (simp add: transform_def)
next
  case noerr: False
  show ?thesis
  proof (cases "int (length d) < P \<and> tot - totalSeen s \<noteq> int (length d)")
    case True
    then show ?thesis using noerr mismatch by (simp add: transform_def)
  next
    case ok: False
    show ?thesis
    proof (cases "\<exists>r rest. partsArray s = r # rest \<and> etag r = JStr (toLowerCase (md5_hex c d))")
      case True
      then obtain r rest where pa: "partsArray s = r # rest"
        and et: "etag r = JStr (toLowerCase (md5_hex c d))"
        by blast
      show ?thesis
        by (rule resumed [OF _ ok pa et]) (use noerr ok pa et in \<open>auto simp add: transform_def Let_def\<close>)
    next
      case nomatch: False
      then have nm: "partsArray s = [] \<or> etag (hd (partsArray s)) \<noteq> JStr (toLowerCase (md5_hex c d))"
        by (cases "partsArray s") auto
      from noerr have noerr': "errored s = None" by simp
      show ?thesis
      proof (cases "d = []")
        case True
        show ?thesis
          by (rule threw [OF noerr' ok nm True], rule orchestrator.equality)
            (use noerr' ok nm True in
              \<open>auto simp add: transform_def uploadPart_empty Let_def split: list.splits\<close>)
      next
        case ne: False
        obtain x where x: "req_method (built x) = ''PUT''" "body x = d"
          and up: "\<And>s'. errored s' = None \<Longrightarrow> sent s' = sent s \<Longrightarrow>
            uploadPart c tr ps bucket key ct uploadId (part' s) d s' =
              (if statusCode (tr (sent s) (wire x) d) \<noteq> 200
               then s'\<lparr>sent := sent s @ [x], trace := trace s' @ [PutPart (part' s)],
                      errored := Some (ErrObject (parseError c (tr (sent s) (wire x) d)))\<rparr>
               else s'\<lparr>sent := sent s @ [x], trace := trace s' @ [PutPart (part' s)],
                      etags := etags s' @ [\<lparr>part = part' s, etag =
                        (case map_of (resp_headers (tr (sent s) (wire x) d)) ''etag'' of
                           None \<Rightarrow> JUndefined | Some v \<Rightarrow> JStr v)\<rparr>]\<rparr>)"
          using uploadPart_result [OF ne, of c tr ps bucket key ct uploadId "part' s" "sent s"]
          by blast
        show ?thesis
        proof (cases "statusCode (tr (sent s) (wire x) d) = 200")
          case True
          show ?thesis
            by (rule uploaded [of x "case map_of (resp_headers (tr (sent s) (wire x) d)) ''etag'' of
                           None \<Rightarrow> JUndefined | Some v \<Rightarrow> JStr v", OF noerr' ok nm x True ne],
                rule orchestrator.equality)
              (use noerr' ok nm True up in \<open>auto simp add: transform_def Let_def split: list.splits\<close>)
        next
          case False
          show ?thesis
            by (rule failed [of x, OF noerr' ok nm x False ne], rule orchestrator.equality)
              (use noerr' ok nm False up in \<open>auto simp add: transform_def Let_def split: list.splits\<close>)
        qed
      qed
    qed
  qed
qed

lemma deliver_stopped:
  "thrown s \<or> errored s \<noteq> None \<Longrightarrow> deliver c tr ps bucket key ct uploadId P tot s d = s"
  by (auto simp add: deliver_def transform_latched)

lemma foldl_deliver_stopped:
  "thrown s \<or> errored s \<noteq> None \<Longrightarrow> foldl (deliver c tr ps bucket key ct uploadId P tot) s bs = s"
  by (induction bs) (simp_all add: deliver_stopped)

lemma deliver_ok_step:
  assumes "errored (deliver c tr ps bucket key ct uploadId P tot s d) = None"
    and "\<not> thrown (deliver c tr ps bucket key ct uploadId P tot s d)"
  shows "errored s = None" and "\<not> thrown s"
    and "part' (deliver c tr ps bucket key ct uploadId P tot s d) = Suc (part' s)"
    and "totalSeen (deliver c tr ps bucket key ct uploadId P tot s d) = totalSeen s + int (length d)"
    and "partsArray (deliver c tr ps bucket key ct uploadId P tot s d) = tl (partsArray s)"
    and "\<exists>t. etags (deliver c tr ps bucket key ct uploadId P tot s d) =
           etags s @ [\<lparr>part = part' s, etag = t\<rparr>]"
    and "\<not> (int (length d) < P \<and> tot - totalSeen s \<noteq> int (length d))"
proof -
  from assms(2) have nt: "\<not> thrown s" by (auto simp add: deliver_def split: if_splits)
  then have eq: "deliver c tr ps bucket key ct uploadId P tot s d =
      transform c tr ps bucket key ct uploadId P tot s d"
    by (simp add: deliver_def)
  show "\<not> thrown s" by (fact nt)
  show "errored s = None"
    and "part' (deliver c tr ps bucket key ct uploadId P tot s d) = Suc (part' s)"
    and "totalSeen (deliver c tr ps bucket key ct uploadId P tot s d) = totalSeen s + int (length d)"
    and "partsArray (deliver c tr ps bucket key ct uploadId P tot s d) = tl (partsArray s)"
    and "\<exists>t. etags (deliver c tr ps bucket key ct uploadId P tot s d) =
           etags s @ [\<lparr>part = part' s, etag = t\<rparr>]"
    and "\<not> (int (length d) < P \<and> tot - totalSeen s \<noteq> int (length d))"
    using assms unfolding eq
    by (cases rule: transform_cases [where s = s and c = c and tr = tr and ps = ps
          and bucket = bucket and key = key and ct = ct and uploadId = uploadId and P = P
          and tot = tot and d = d]; simp)+
qed

lemma transform_grows:
  shows "part' s \<le> part' (transform c tr ps bucket key ct uploadId P tot s d)"
    and "partsArray (transform c tr ps bucket key ct uploadId P tot s d) =
           drop (part' (transform c tr ps bucket key ct uploadId P tot s d) - part' s) (partsArray s)"
    and "\<exists>ys. etags (transform c tr ps bucket key ct uploadId P tot s d) = etags s @ ys"
    and "\<exists>evs. trace (transform c tr ps bucket key ct uploadId P tot s d) = trace s @ evs
           \<and> (\<forall>n. PutPart n \<in> set evs \<or> HashPart n \<in> set evs \<longrightarrow> n = part' s)"
    and "\<exists>xs. sent (transform c tr ps bucket key ct uploadId P tot s d) = sent s @ xs
           \<and> (\<forall>x \<in> set xs. req_method (built x) = ''PUT'')"
  by (cases rule: transform_cases [where s = s and c = c and tr = tr and ps = ps and bucket = bucket
        and key = key and ct = ct and uploadId = uploadId and P = P and tot = tot and d = d];
      simp add: drop_Suc)+

lemma deliver_grows:
  shows "part' s \<le> part' (deliver c tr ps bucket key ct uploadId P tot s d)"
    and "partsArray (deliver c tr ps bucket key ct uploadId P tot s d) =
           drop (part' (deliver c tr ps bucket key ct uploadId P tot s d) - part' s) (partsArray s)"
    and "\<exists>ys. etags (deliver c tr ps bucket key ct uploadId P tot s d) = etags s @ ys"
    and "\<exists>evs. trace (deliver c tr ps bucket key ct uploadId P tot s d) = trace s @ evs
           \<and> (\<forall>n. PutPart n \<in> set evs \<or> HashPart n \<in> set evs \<longrightarrow> n = part' s)"
    and "\<exists>xs. sent (deliver c tr ps bucket key ct uploadId P tot s d) = sent s @ xs
           \<and> (\<forall>x \<in> set xs. req_method (built x) = ''PUT'')"
  using transform_grows [where s = s and c = c and tr = tr and ps = ps and bucket = bucket
        and key = key and ct = ct and uploadId = uploadId and P = P and tot = tot and d = d]
  by (simp_all add: deliver_def)

lemma run_success:
  "errored (foldl (deliver c tr ps bucket key ct uploadId P tot) s bs) = None \<Longrightarrow>
   \<not> thrown (foldl (deliver c tr ps bucket key ct uploadId P tot) s bs) \<Longrightarrow>
     errored s = None \<and> \<not> thrown s
     \<and> part' (foldl (deliver c tr ps bucket key ct uploadId P tot) s bs) = part' s + length bs
     \<and> map part (etags (foldl (deliver c tr ps bucket key ct uploadId P tot) s bs)) =
         map part (etags s) @ [part' s..<part' s + length bs]
     \<and> totalSeen (foldl (deliver c tr ps bucket key ct uploadId P tot) s bs) =
         totalSeen s + (\<Sum>b\<leftarrow>bs. int (length b))
     \<and> partsArray (foldl (deliver c tr ps bucket key ct uploadId P tot) s bs) =
         drop (length bs) (partsArray s)"
proof (induction bs arbitrary: s)
  case Nil
  then show ?case by simp
next
  case (Cons b bs)
  let ?T = "deliver c tr ps bucket key ct uploadId P tot"
  from Cons.prems have fin: "errored (foldl ?T (?T s b) bs) = None"
    "\<not> thrown (foldl ?T (?T s b) bs)" by simp_all
  note ih = Cons.IH [OF fin]
  from ih have e': "errored (?T s b) = None" "\<not> thrown (?T s b)" by simp_all
  note st = deliver_ok_step [OF e']
  from st(6) obtain t where t: "etags (?T s b) = etags s @ [\<lparr>part = part' s, etag = t\<rparr>]" by blast
  have upt: "part' s # [Suc (part' s)..<Suc (part' s) + length bs] = [part' s..<part' s + length (b # bs)]"
    by (subst (2) upt_conv_Cons) simp_all
  have "map part (etags (foldl ?T (?T s b) bs)) =
          map part (etags (?T s b)) @ [part' (?T s b)..<part' (?T s b) + length bs]"
    using ih by blast
  also have "\<dots> = map part (etags s) @ (part' s # [Suc (part' s)..<Suc (part' s) + length bs])"
    unfolding t st(3) by simp
  finally have m: "map part (etags (foldl ?T (?T s b) bs)) =
      map part (etags s) @ [part' s..<part' s + length (b # bs)]"
    unfolding upt .
  have p: "part' (foldl ?T (?T s b) bs) = part' s + length (b # bs)"
    using ih st(3) by simp
  have ts: "totalSeen (foldl ?T (?T s b) bs) = totalSeen s + (\<Sum>b\<leftarrow>b # bs. int (length b))"
    using ih st(4) by simp
  have pa: "partsArray (foldl ?T (?T s b) bs) = drop (length (b # bs)) (partsArray s)"
    using ih st(5) by (simp add: drop_Suc)
  show ?case using st(1,2) m p ts pa by simp
qed

lemma run_grows:
  "part' s \<le> part' (foldl (deliver c tr ps bucket key ct uploadId P tot) s bs)
   \<and> partsArray (foldl (deliver c tr ps bucket key ct uploadId P tot) s bs) =
       drop (part' (foldl (deliver c tr ps bucket key ct uploadId P tot) s bs) - part' s)
         (partsArray s)
   \<and> (\<exists>ys. etags (foldl (deliver c tr ps bucket key ct uploadId P tot) s bs) = etags s @ ys)
   \<and> (\<exists>evs. trace (foldl (deliver c tr ps bucket key ct uploadId P tot) s bs) = trace s @ evs
         \<and> (\<forall>n. PutPart n \<in> set evs \<or> HashPart n \<in> set evs \<longrightarrow> part' s \<le> n))
   \<and> (\<exists>xs. sent (foldl (deliver c tr ps bucket key ct uploadId P tot) s bs) = sent s @ xs
         \<and> (\<forall>x \<in> set xs. req_method (built x) = ''PUT''))"
proof (induction bs arbitrary: s)
  case Nil
  then show ?case by simp
next
  case (Cons b bs)
  let ?T = "deliver c tr ps bucket key ct uploadId P tot"
  let ?s' = "?T s b"
  let ?f = "foldl ?T ?s' bs"
  note ih = Cons.IH [of ?s']
  note g = deliver_grows [where s = s and c = c and tr = tr and ps = ps and bucket = bucket
      and key = key and ct = ct and uploadId = uploadId and P = P and tot = tot and d = b]
  have 1: "part' s \<le> part' ?f" using ih g(1) by linarith
  have 2: "partsArray ?f = drop (part' ?f - part' s) (partsArray s)"
  proof -
    have "partsArray ?f = drop (part' ?f - part' ?s') (drop (part' ?s' - part' s) (partsArray s))"
      using ih g(2) by simp
    also have "\<dots> = drop ((part' ?f - part' ?s') + (part' ?s' - part' s)) (partsArray s)"
      by (simp add: add.commute)
    also have "(part' ?f - part' ?s') + (part' ?s' - part' s) = part' ?f - part' s"
      using ih g(1) by simp
    finally show ?thesis .
  qed
  have 3: "\<exists>ys. etags ?f = etags s @ ys"
    using ih g(3) by (metis append_assoc)
  have 4: "\<exists>evs. trace ?f = trace s @ evs
             \<and> (\<forall>n. PutPart n \<in> set evs \<or> HashPart n \<in> set evs \<longrightarrow> part' s \<le> n)"
  proof -
    from g(4) obtain e1 where e1: "trace ?s' = trace s @ e1"
      "\<forall>n. PutPart n \<in> set e1 \<or> HashPart n \<in> set e1 \<longrightarrow> n = part' s" by blast
    from ih obtain e2 where e2: "trace ?f = trace ?s' @ e2"
      "\<forall>n. PutPart n \<in> set e2 \<or> HashPart n \<in> set e2 \<longrightarrow> part' ?s' \<le> n" by blast
    have "trace ?f = trace s @ (e1 @ e2)" using e1 e2 by simp
    moreover have "\<forall>n. PutPart n \<in> set (e1 @ e2) \<or> HashPart n \<in> set (e1 @ e2) \<longrightarrow> part' s \<le> n"
      using e1(2) e2(2) g(1) by (auto intro: order_trans)
    ultimately show ?thesis by blast
  qed
  have 5: "\<exists>xs. sent ?f = sent s @ xs \<and> (\<forall>x \<in> set xs. req_method (built x) = ''PUT'')"
  proof -
    from g(5) obtain x1 where x1: "sent ?s' = sent s @ x1"
      "\<forall>x \<in> set x1. req_method (built x) = ''PUT''" by blast
    from ih obtain x2 where x2: "sent ?f = sent ?s' @ x2"
      "\<forall>x \<in> set x2. req_method (built x) = ''PUT''" by blast
    have "sent ?f = sent s @ (x1 @ x2)" using x1 x2 by simp
    moreover have "\<forall>x \<in> set (x1 @ x2). req_method (built x) = ''PUT''"
      using x1(2) x2(2) by auto
    ultimately show ?thesis by blast
  qed
  show ?case using 1 2 3 4 5 by simp
qed


lemma upt_shift: "p # [Suc p..<Suc p + n] = [p..<p + Suc n]"
  by (subst (2) upt_conv_Cons) simp_all

lemma resume_prefix:
  "list_all2 (\<lambda>rec b. etag rec = JStr (toLowerCase (md5_hex c b))) rs pre \<Longrightarrow>
   errored s = None \<Longrightarrow> \<not> thrown s \<Longrightarrow> partsArray s = rs @ rest \<Longrightarrow>
     sent (foldl (deliver c tr ps bucket key ct uploadId P tot) s pre) = sent s
     \<and> \<not> thrown (foldl (deliver c tr ps bucket key ct uploadId P tot) s pre)
     \<and> (\<exists>k. trace (foldl (deliver c tr ps bucket key ct uploadId P tot) s pre) =
               trace s @ map HashPart [part' s..<part' s + k])
     \<and> (errored (foldl (deliver c tr ps bucket key ct uploadId P tot) s pre) = None \<longrightarrow>
          etags (foldl (deliver c tr ps bucket key ct uploadId P tot) s pre) =
            etags s @ map (\<lambda>(n, rec). \<lparr>part = n, etag = etag rec\<rparr>) (enumerate (part' s) rs)
          \<and> trace (foldl (deliver c tr ps bucket key ct uploadId P tot) s pre) =
              trace s @ map HashPart [part' s..<part' s + length rs]
          \<and> part' (foldl (deliver c tr ps bucket key ct uploadId P tot) s pre) =
              part' s + length rs
          \<and> partsArray (foldl (deliver c tr ps bucket key ct uploadId P tot) s pre) = rest)"
proof (induction rs pre arbitrary: s rule: list_all2_induct)
  case Nil
  show ?case using Nil by (auto intro: exI [of _ 0])
next
  case (Cons rec rs b pre)
  let ?T = "deliver c tr ps bucket key ct uploadId P tot"
  let ?s' = "transform c tr ps bucket key ct uploadId P tot s b"
  have fold: "foldl ?T s (b # pre) = foldl ?T ?s' pre"
    using Cons.prems(2) by (simp add: deliver_def)
  show ?case
  proof (cases rule: transform_cases [where s = s and c = c and tr = tr and ps = ps
        and bucket = bucket and key = key and ct = ct and uploadId = uploadId and P = P
        and tot = tot and d = b])
    case latched
    then show ?thesis using Cons.prems by simp
  next
    case mismatch
    then have "foldl ?T ?s' pre = ?s'" by (simp add: foldl_deliver_stopped)
    then show ?thesis unfolding fold using mismatch(4) Cons.prems(2) by (auto intro: exI [of _ 0])
  next
    case (resumed r rest')
    from resumed(3) Cons.prems(3) have r: "r = rec" "rest' = rs @ rest" by simp_all
    have e': "errored ?s' = None" and nt': "\<not> thrown ?s'" and pa': "partsArray ?s' = rs @ rest"
      using resumed(1,5) r Cons.prems(2) by simp_all
    note ih = Cons.IH [OF e' nt' pa']
    have st: "sent ?s' = sent s" "trace ?s' = trace s @ [HashPart (part' s)]"
      "part' ?s' = Suc (part' s)" "etags ?s' = etags s @ [\<lparr>part = part' s, etag = etag rec\<rparr>]"
      using resumed(5) r by simp_all
    from ih obtain k where k: "trace (foldl ?T ?s' pre) = trace ?s' @ map HashPart [part' ?s'..<part' ?s' + k]"
      by blast
    have "trace (foldl ?T ?s' pre) = trace s @ map HashPart (part' s # [Suc (part' s)..<Suc (part' s) + k])"
      unfolding k st by simp
    then have 2: "\<exists>k. trace (foldl ?T s (b # pre)) = trace s @ map HashPart [part' s..<part' s + k]"
      unfolding upt_shift fold by (intro exI [of _ "Suc k"]) simp
    have 3: "etags (foldl ?T s (b # pre)) =
            etags s @ map (\<lambda>(n, rec). \<lparr>part = n, etag = etag rec\<rparr>) (enumerate (part' s) (rec # rs))
          \<and> trace (foldl ?T s (b # pre)) = trace s @ map HashPart [part' s..<part' s + length (rec # rs)]
          \<and> part' (foldl ?T s (b # pre)) = part' s + length (rec # rs)
          \<and> partsArray (foldl ?T s (b # pre)) = rest"
      if "errored (foldl ?T s (b # pre)) = None"
    proof -
      from that have "errored (foldl ?T ?s' pre) = None" unfolding fold .
      with ih have a: "etags (foldl ?T ?s' pre) =
            etags ?s' @ map (\<lambda>(n, rec). \<lparr>part = n, etag = etag rec\<rparr>) (enumerate (part' ?s') rs)"
        and b: "trace (foldl ?T ?s' pre) = trace ?s' @ map HashPart [part' ?s'..<part' ?s' + length rs]"
        and c: "part' (foldl ?T ?s' pre) = part' ?s' + length rs"
        and d: "partsArray (foldl ?T ?s' pre) = rest"
        by blast+
      have b': "trace (foldl ?T ?s' pre) =
          trace s @ map HashPart (part' s # [Suc (part' s)..<Suc (part' s) + length rs])"
        unfolding b st by simp
      show ?thesis
        unfolding fold using a b' [unfolded upt_shift] c d unfolding st by simp
    qed
    have 1: "sent (foldl ?T s (b # pre)) = sent s" unfolding fold using ih st(1) by simp
    have 4: "\<not> thrown (foldl ?T s (b # pre))" unfolding fold using ih by blast
    show ?thesis using 1 2 3 4 by blast
  next
    case (uploaded x t)
    then show ?thesis using Cons.prems(3) Cons.hyps(1) by simp
  next
    case (failed x)
    then show ?thesis using Cons.prems(3) Cons.hyps(1) by simp
  next
    case threw
    then show ?thesis using Cons.prems(3) Cons.hyps(1) by simp
  qed
qed


section \<open>The latch and the answers of the transport\<close>

lemma responses_snoc:
  "responses tr log (xs @ [x]) = responses tr log xs @ [tr (log @ xs) (wire x) (body x)]"
  by (induction xs arbitrary: log) simp_all

lemma transform_agrees:
  assumes "sent s = net0 @ xs" and "agrees c (errored s) (responses tr net0 xs)"
  shows "\<exists>xs'. sent (transform c tr ps bucket key ct uploadId P tot s d) = net0 @ xs'
           \<and> agrees c (errored (transform c tr ps bucket key ct uploadId P tot s d))
                (responses tr net0 xs')"
proof (cases rule: transform_cases [where s = s and c = c and tr = tr and ps = ps
      and bucket = bucket and key = key and ct = ct and uploadId = uploadId and P = P
      and tot = tot and d = d])
  case latched
  then show ?thesis using assms by auto
next
  case mismatch
  then show ?thesis using assms by (auto simp add: agrees_def)
next
  case (resumed r rest)
  then show ?thesis using assms by auto
next
  case (uploaded x t)
  have "sent (transform c tr ps bucket key ct uploadId P tot s d) = net0 @ (xs @ [x])"
    using uploaded(8) assms(1) by simp
  moreover have "agrees c (errored (transform c tr ps bucket key ct uploadId P tot s d))
      (responses tr net0 (xs @ [x]))"
    using uploaded(1,5,6,8) assms by (simp add: agrees_def responses_snoc accepted_def)
  ultimately show ?thesis by blast
next
  case (failed x)
  have "sent (transform c tr ps bucket key ct uploadId P tot s d) = net0 @ (xs @ [x])"
    using failed(8) assms(1) by simp
  moreover have "agrees c (errored (transform c tr ps bucket key ct uploadId P tot s d))
      (responses tr net0 (xs @ [x]))"
    using failed(1,5,6,8) assms by (simp add: agrees_def responses_snoc accepted_def)
  ultimately show ?thesis by blast
next
  case threw
  then show ?thesis using assms by auto
qed

lemma run_agrees:
  "sent s = net0 @ xs \<Longrightarrow> agrees c (errored s) (responses tr net0 xs) \<Longrightarrow>
   \<exists>xs'. sent (foldl (deliver c tr ps bucket key ct uploadId P tot) s bs) = net0 @ xs'
     \<and> agrees c (errored (foldl (deliver c tr ps bucket key ct uploadId P tot) s bs))
          (responses tr net0 xs')"
proof (induction bs arbitrary: s xs)
  case Nil
  then show ?case by auto
next
  case (Cons b bs)
  have "\<exists>xs'. sent (deliver c tr ps bucket key ct uploadId P tot s b) = net0 @ xs'
           \<and> agrees c (errored (deliver c tr ps bucket key ct uploadId P tot s b))
                (responses tr net0 xs')"
    using transform_agrees [OF Cons.prems, where ps = ps and bucket = bucket and key = key
        and ct = ct and uploadId = uploadId and P = P and tot = tot and d = b] Cons.prems
    by (auto simp add: deliver_def)
  then obtain xs' where "sent (deliver c tr ps bucket key ct uploadId P tot s b) = net0 @ xs'"
    "agrees c (errored (deliver c tr ps bucket key ct uploadId P tot s b)) (responses tr net0 xs')"
    by blast
  from Cons.IH [OF this] show ?case by simp
qed

section \<open>Blocks that are not empty\<close>

lemma chop_nonempty: "b \<in> set (chop n xs) \<Longrightarrow> b \<noteq> []"
proof (induction n xs rule: chop.induct)
  case (1 n xs)
  show ?case
  proof (cases "n = 0")
    case True
    with "1.prems" show ?thesis by (simp add: chop.simps)
  next
    case n: False
    show ?thesis
    proof (cases "n \<le> length xs")
      case True
      from "1.prems" n True have "b = take n xs \<or> b \<in> set (chop n (drop n xs))"
        by (subst (asm) chop.simps) simp
      then show ?thesis
      proof
        assume "b = take n xs"
        with n True show ?thesis by auto
      next
        assume "b \<in> set (chop n (drop n xs))"
        with "1.IH" n True show ?thesis by simp
      qed
    next
      case False
      with "1.prems" n show ?thesis by (subst (asm) chop.simps) (auto split: if_splits)
    qed
  qed
qed

lemma BlockStream2_nonempty: "b \<in> set (BlockStream2 n r) \<Longrightarrow> b \<noteq> []"
  unfolding BlockStream2_def by (rule chop_nonempty)

lemma transform_not_thrown:
  "d \<noteq> [] \<Longrightarrow> thrown (transform c tr ps bucket key ct uploadId P tot s d) = thrown s"
  by (cases rule: transform_cases [where s = s and c = c and tr = tr and ps = ps and bucket = bucket
        and key = key and ct = ct and uploadId = uploadId and P = P and tot = tot and d = d])
    simp_all

lemma run_not_thrown:
  "\<not> thrown s \<Longrightarrow> \<forall>b \<in> set bs. b \<noteq> [] \<Longrightarrow>
   \<not> thrown (foldl (deliver c tr ps bucket key ct uploadId P tot) s bs)"
  by (induction bs arbitrary: s) (simp_all add: deliver_def transform_not_thrown)

section \<open>Whole runs\<close>

lemma concat_chop: "0 < n \<Longrightarrow> concat (chop n xs) = xs"
proof (induction n xs rule: chop.induct)
  case (1 n xs)
  show ?case
  proof (cases "n \<le> length xs")
    case True
    with 1 show ?thesis by (subst chop.simps) simp
  next
    case False
    with 1 show ?thesis by (subst chop.simps) simp
  qed
qed

lemma calculatePartSize_pos: "0 < nat (calculatePartSize t)"
  by (simp add: calculatePartSize_def Let_def less_max_iff_disj)

lemma concat_BlockStream2: "concat (BlockStream2 (nat (calculatePartSize t)) r) = concat r"
  using calculatePartSize_pos [of t] by (simp add: BlockStream2_def concat_chop)

lemma sum_lengths: "(\<Sum>b\<leftarrow>bs. int (length b)) = int (length (concat bs))"
  by (induction bs) simp_all


lemma streamUploadBlocks_state:
  "snd (streamUploadBlocks c tr ps bucket key ct uploadId pa tot bs net) =
     foldl (deliver c tr ps bucket key ct uploadId (calculatePartSize tot) tot)
       (initialState pa net) bs"
  by (simp add: streamUploadBlocks_def Let_def)

lemma streamUploadBlocks_result:
  "\<forall>b \<in> set bs. b \<noteq> [] \<Longrightarrow>
   fst (streamUploadBlocks c tr ps bucket key ct uploadId pa tot bs net) =
     Some (flush tot (snd (streamUploadBlocks c tr ps bucket key ct uploadId pa tot bs net)))"
  using run_not_thrown [where s = "initialState pa net" and bs = bs and c = c and tr = tr
      and ps = ps and bucket = bucket and key = key and ct = ct and uploadId = uploadId
      and P = "calculatePartSize tot" and tot = tot]
  by (simp add: streamUploadBlocks_def Let_def initialState_def)

lemma streamUploadBlocks_success:
  assumes "fst (streamUploadBlocks c tr ps bucket key ct uploadId pa tot bs net) = Some (Inr M)"
  shows "map part M = [1..<Suc (length bs)]" and "length M = length bs"
    and "etags (snd (streamUploadBlocks c tr ps bucket key ct uploadId pa tot bs net)) = M"
    and "errored (snd (streamUploadBlocks c tr ps bucket key ct uploadId pa tot bs net)) = None"
    and "partsArray (snd (streamUploadBlocks c tr ps bucket key ct uploadId pa tot bs net)) =
           drop (length bs) pa"
    and "int (length (concat bs)) = tot"
    and "\<not> thrown (snd (streamUploadBlocks c tr ps bucket key ct uploadId pa tot bs net))"
proof -
  let ?f = "foldl (deliver c tr ps bucket key ct uploadId (calculatePartSize tot) tot)
              (initialState pa net) bs"
  from assms have nt: "\<not> thrown ?f" and fl: "flush tot ?f = Inr M"
    by (auto simp add: streamUploadBlocks_def Let_def split: if_splits)
  from fl have e: "errored ?f = None" and M: "etags ?f = M" and ts: "totalSeen ?f = tot"
    by (auto simp add: flush_def split: option.splits if_splits)
  note rs = run_success [OF e nt]
  from rs M have mp: "map part M = [1..<Suc (length bs)]" by (simp add: initialState_def)
  show "map part M = [1..<Suc (length bs)]" by (fact mp)
  from mp have "length (map part M) = length [1..<Suc (length bs)]" by (rule arg_cong)
  then show "length M = length bs" by (simp del: upt_Suc)
  show "etags (snd (streamUploadBlocks c tr ps bucket key ct uploadId pa tot bs net)) = M"
    using M by (simp add: streamUploadBlocks_state)
  show "errored (snd (streamUploadBlocks c tr ps bucket key ct uploadId pa tot bs net)) = None"
    using e by (simp add: streamUploadBlocks_state)
  show "partsArray (snd (streamUploadBlocks c tr ps bucket key ct uploadId pa tot bs net)) =
           drop (length bs) pa"
    using rs by (simp add: streamUploadBlocks_state initialState_def)
  show "int (length (concat bs)) = tot"
    using rs ts by (simp add: initialState_def sum_lengths)
  show "\<not> thrown (snd (streamUploadBlocks c tr ps bucket key ct uploadId pa tot bs net))"
    using nt by (simp add: streamUploadBlocks_state)
qed

text \<open>The equations that evaluate a run on concrete input.\<close>

lemmas run_defs = streamUpload_def streamUploadBlocks_def BlockStream2_def chop.simps
  calculatePartSize_def initialState_def deliver_def transform_def uploadPart_def doPutObject_def
  putCallback_def flush_def Let_def sampleCollaborators_def sampleParams_def
  acceptingServer_def refusingServer_def refusingSecondServer_def stateAfter_def
  toLowerCase_def lowerChar_def


section \<open>The order of the completion document\<close>




section \<open>A matching prefix of the resume manifest\<close>

lemma streamUploadBlocks_resume:
  assumes K: "K \<le> length bs" "K \<le> length pa"
    and m: "\<forall>i<K. etag (pa ! i) = JStr (toLowerCase (md5_hex c (bs ! i)))"
  shows "\<forall>n. 1 \<le> n \<and> n \<le> K \<longrightarrow>
           PutPart n \<notin> set (trace (snd (streamUploadBlocks c tr ps bucket key ct uploadId pa tot bs net)))"
    and "fst (streamUploadBlocks c tr ps bucket key ct uploadId pa tot bs net) = Some (Inr M) \<Longrightarrow>
           take K M = map (\<lambda>(n, rec). \<lparr>part = n, etag = etag rec\<rparr>) (enumerate 1 (take K pa))
           \<and> take K (trace (snd (streamUploadBlocks c tr ps bucket key ct uploadId pa tot bs net))) =
               map HashPart [1..<Suc K]"
proof -
  let ?T = "deliver c tr ps bucket key ct uploadId (calculatePartSize tot) tot"
  let ?s0 = "initialState pa net :: 'a orchestrator"
  let ?s' = "foldl ?T ?s0 (take K bs)"
  let ?f = "foldl ?T ?s0 bs"
  have f: "?f = foldl ?T ?s' (drop K bs)"
    by (metis append_take_drop_id foldl_append)
  have sf: "snd (streamUploadBlocks c tr ps bucket key ct uploadId pa tot bs net) = ?f"
    by (simp add: streamUploadBlocks_def Let_def)
  have la: "list_all2 (\<lambda>rec b. etag rec = JStr (toLowerCase (md5_hex c b))) (take K pa) (take K bs)"
    using K m by (simp add: list_all2_conv_all_nth)
  have "errored ?s0 = None" "\<not> thrown ?s0" "partsArray ?s0 = take K pa @ drop K pa"
    by (simp_all add: initialState_def)
  note rp = resume_prefix [OF la this, where tr = tr and ps = ps and bucket = bucket and key = key
      and ct = ct and uploadId = uploadId and P = "calculatePartSize tot" and tot = tot]
  have len: "length (take K pa) = K" using K by simp
  have i: "part' ?s0 = 1" "trace ?s0 = []" "etags ?s0 = []" "sent ?s0 = net"
    by (simp_all add: initialState_def)
  note rp' = rp [unfolded i len append_Nil]
  from rp' obtain k where k: "trace ?s' = map HashPart [1..<1 + k]"
    by blast
  have ok: "etags ?s' = map (\<lambda>(n, rec). \<lparr>part = n, etag = etag rec\<rparr>) (enumerate 1 (take K pa))"
    "trace ?s' = map HashPart [1..<1 + K]" "part' ?s' = 1 + K" if "errored ?s' = None"
    using rp' that by blast+
  note g = run_grows [where s = ?s' and bs = "drop K bs" and c = c and tr = tr and ps = ps
      and bucket = bucket and key = key and ct = ct and uploadId = uploadId
      and P = "calculatePartSize tot" and tot = tot, folded f]
  show "\<forall>n. 1 \<le> n \<and> n \<le> K \<longrightarrow>
           PutPart n \<notin> set (trace (snd (streamUploadBlocks c tr ps bucket key ct uploadId pa tot bs net)))"
  proof (cases "errored ?s'")
    case None
    from g obtain evs where evs: "trace ?f = trace ?s' @ evs"
      "\<forall>n. PutPart n \<in> set evs \<or> HashPart n \<in> set evs \<longrightarrow> part' ?s' \<le> n" by blast
    show ?thesis unfolding sf evs(1) ok(2,3) [OF None] using evs(2) [unfolded ok(3) [OF None]]
      by (auto simp del: upt_Suc)
  next
    case (Some e)
    then have "?f = ?s'" unfolding f by (simp add: foldl_deliver_stopped)
    then show ?thesis unfolding sf using k by (auto simp del: upt_Suc)
  qed
  assume "fst (streamUploadBlocks c tr ps bucket key ct uploadId pa tot bs net) = Some (Inr M)"
  note s = streamUploadBlocks_success [OF this, unfolded sf]
  have e': "errored ?s' = None"
  proof (rule ccontr)
    assume "errored ?s' \<noteq> None"
    then have "?f = ?s'" unfolding f by (simp add: foldl_deliver_stopped)
    with s(4) \<open>errored ?s' \<noteq> None\<close> show False by simp
  qed
  from g obtain ys evs where ys: "etags ?f = etags ?s' @ ys" and evs: "trace ?f = trace ?s' @ evs"
    by blast
  have "length (etags ?s') = K" unfolding ok(1) [OF e'] using len by simp
  moreover have "M = etags ?s' @ ys" using s(3) ys by simp
  ultimately have "take K M = etags ?s'"
    by (metis append_eq_conv_conj)
  moreover have "length (trace ?s') = K" unfolding ok(2) [OF e'] by (simp del: upt_Suc)
  then have "take K (trace ?f) = trace ?s'"
    using evs by (metis append_eq_conv_conj)
  ultimately show "take K M = map (\<lambda>(n, rec). \<lparr>part = n, etag = etag rec\<rparr>) (enumerate 1 (take K pa))
           \<and> take K (trace (snd (streamUploadBlocks c tr ps bucket key ct uploadId pa tot bs net))) =
               map HashPart [1..<Suc K]"
    unfolding sf using ok(1,2) [OF e'] by (simp del: upt_Suc)
qed


section \<open>Resuming an upload\<close>

text \<open>
  C3. Let the stream be re-chunked into the blocks \<open>bs\<close> and let the first \<open>K\<close> records of
  the resume manifest carry, as their \<open>etag\<close>, the lower-case hexadecimal MD5 digests of the
  first \<open>K\<close> blocks. Then \<open>doPutObject\<close> is not invoked for any of the parts 1 to \<open>K\<close>;
  and when \<open>streamUpload\<close> reports a manifest, its first \<open>K\<close> entries are the parts 1 to
  \<open>K\<close> with the stored entity tags of the records 1 to \<open>K\<close> in this order, the first \<open>K\<close>
  events of the run are the digest computations for the parts 1 to \<open>K\<close>, one each and in
  order, and every block has removed one record from the head of \<open>partsArray\<close>.
\<close>

theorem streamUpload_resume:
  assumes "bs = BlockStream2 (nat (calculatePartSize totalSize)) r"
    and "K \<le> length bs" and "K \<le> length pa"
    and "\<forall>i<K. etag (pa ! i) = JStr (toLowerCase (md5_hex c (bs ! i)))"
  shows "(\<forall>n. 1 \<le> n \<and> n \<le> K \<longrightarrow>
            PutPart n \<notin> set (trace (snd (streamUpload c tr ps bucket key ct uploadId pa totalSize r net))))
    \<and> (\<forall>M. fst (streamUpload c tr ps bucket key ct uploadId pa totalSize r net) = Some (Inr M) \<longrightarrow>
          take K M = map (\<lambda>(n, rec). \<lparr>part = n, etag = etag rec\<rparr>) (enumerate 1 (take K pa))
          \<and> take K (trace (snd (streamUpload c tr ps bucket key ct uploadId pa totalSize r net))) =
              map HashPart [1..<Suc K]
          \<and> partsArray (snd (streamUpload c tr ps bucket key ct uploadId pa totalSize r net)) =
              drop (length bs) pa)"
proof -
  have su: "streamUpload c tr ps bucket key ct uploadId pa totalSize r net =
      streamUploadBlocks c tr ps bucket key ct uploadId pa totalSize bs net"
    unfolding assms(1) by (simp add: streamUpload_def)
  note r = streamUploadBlocks_resume [OF assms(2-4), where tr = tr and ps = ps and bucket = bucket
      and key = key and ct = ct and uploadId = uploadId and tot = totalSize and net = net]
  show ?thesis unfolding su using r(1) r(2) streamUploadBlocks_success(5) by blast
qed

theorem streamUpload_resume_witness:
  "BlockStream2 (nat (calculatePartSize 5242883)) [replicate 5242880 CHR ''a'', ''abc''] =
     [replicate 5242880 CHR ''a'', ''abc'']
   \<and> fst (streamUpload sampleCollaborators refusingServer sampleParams ''bucket'' ''key'' JNull ''id''
        [\<lparr>part = 1, etag = JStr ''d41d8cd98f00b204e9800998ecf8427e''\<rparr>,
         \<lparr>part = 2, etag = JStr ''900150983cd24fb0d6963f7d28e17f72''\<rparr>]
        5242883 [replicate 5242880 CHR ''a'', ''abc''] []) =
       Some (Inr [\<lparr>part = 1, etag = JStr ''d41d8cd98f00b204e9800998ecf8427e''\<rparr>,
                  \<lparr>part = 2, etag = JStr ''900150983cd24fb0d6963f7d28e17f72''\<rparr>])
   \<and> PutPart 1 \<notin> set (trace (snd (streamUpload sampleCollaborators refusingServer sampleParams
        ''bucket'' ''key'' JNull ''id''
        [\<lparr>part = 1, etag = JStr ''d41d8cd98f00b204e9800998ecf8427e''\<rparr>,
         \<lparr>part = 2, etag = JStr ''900150983cd24fb0d6963f7d28e17f72''\<rparr>]
        5242883 [replicate 5242880 CHR ''a'', ''abc''] [])))
   \<and> PutPart 2 \<notin> set (trace (snd (streamUpload sampleCollaborators refusingServer sampleParams
        ''bucket'' ''key'' JNull ''id''
        [\<lparr>part = 1, etag = JStr ''d41d8cd98f00b204e9800998ecf8427e''\<rparr>,
         \<lparr>part = 2, etag = JStr ''900150983cd24fb0d6963f7d28e17f72''\<rparr>]
        5242883 [replicate 5242880 CHR ''a'', ''abc''] [])))
   \<and> sent (snd (streamUpload sampleCollaborators refusingServer sampleParams ''bucket'' ''key'' JNull ''id''
        [\<lparr>part = 1, etag = JStr ''d41d8cd98f00b204e9800998ecf8427e''\<rparr>,
         \<lparr>part = 2, etag = JStr ''900150983cd24fb0d6963f7d28e17f72''\<rparr>]
        5242883 [replicate 5242880 CHR ''a'', ''abc''] [])) = []"
proof -
  let ?pa = "[\<lparr>part = 1, etag = JStr ''d41d8cd98f00b204e9800998ecf8427e''\<rparr>,
              \<lparr>part = 2, etag = JStr ''900150983cd24fb0d6963f7d28e17f72''\<rparr>]"
  let ?bs = "[replicate 5242880 CHR ''a'', ''abc'']"
  let ?R = "streamUpload sampleCollaborators refusingServer sampleParams ''bucket'' ''key'' JNull
              ''id'' ?pa 5242883 ?bs []"
  have h1: "?bs = BlockStream2 (nat (calculatePartSize 5242883)) ?bs"
    by (simp add: run_defs)
  have h2: "2 \<le> length ?bs" and h3: "2 \<le> length ?pa" by simp_all
  have h4: "\<forall>i<2. etag (?pa ! i) = JStr (toLowerCase (md5_hex sampleCollaborators (?bs ! i)))"
    by (simp add: run_defs less_Suc_eq numeral_2_eq_2)
  have ev: "fst ?R = Some (Inr ?pa)" "sent (snd ?R) = []"
    by (simp_all add: run_defs)
  from streamUpload_resume [OF h1 h2 h3 h4, where tr = refusingServer and ps = sampleParams
      and bucket = "''bucket''" and key = "''key''" and ct = JNull and uploadId = "''id''"
      and net = "[]"]
  have "\<forall>n. 1 \<le> n \<and> n \<le> 2 \<longrightarrow> PutPart n \<notin> set (trace (snd ?R))" by blast
  then have "PutPart 1 \<notin> set (trace (snd ?R))" "PutPart 2 \<notin> set (trace (snd ?R))"
    by simp_all
  with h1 ev show ?thesis by simp
qed


section \<open>A stream of the wrong length\<close>

lemma streamUploadBlocks_sent:
  "\<exists>xs. sent (snd (streamUploadBlocks c tr ps bucket key ct uploadId pa tot bs net)) = net @ xs
        \<and> (\<forall>x \<in> set xs. req_method (built x) = ''PUT'')"
  using run_grows [where s = "initialState pa net" and bs = bs and c = c and tr = tr and ps = ps
      and bucket = bucket and key = key and ct = ct and uploadId = uploadId
      and P = "calculatePartSize tot" and tot = tot]
  by (simp add: streamUploadBlocks_state initialState_def)

lemma streamUploadBlocks_agrees:
  "\<exists>xs. sent (snd (streamUploadBlocks c tr ps bucket key ct uploadId pa tot bs net)) = net @ xs
        \<and> (\<forall>x \<in> set xs. req_method (built x) = ''PUT'')
        \<and> agrees c (errored (snd (streamUploadBlocks c tr ps bucket key ct uploadId pa tot bs net)))
             (responses tr net xs)"
proof -
  let ?s0 = "initialState pa net :: 'a orchestrator"
  have "sent ?s0 = net @ []" "agrees c (errored ?s0) (responses tr net [])"
    by (simp_all add: initialState_def agrees_def)
  from run_agrees [OF this, where ps = ps and bucket = bucket and key = key and ct = ct
      and uploadId = uploadId and P = "calculatePartSize tot" and tot = tot and bs = bs]
  obtain xs where xs: "sent (snd (streamUploadBlocks c tr ps bucket key ct uploadId pa tot bs net)) =
      net @ xs"
    "agrees c (errored (snd (streamUploadBlocks c tr ps bucket key ct uploadId pa tot bs net)))
      (responses tr net xs)"
    unfolding streamUploadBlocks_state by blast
  from streamUploadBlocks_sent [of c tr ps bucket key ct uploadId pa tot bs net] xs(1)
  have "\<forall>x \<in> set xs. req_method (built x) = ''PUT''" by auto
  with xs show ?thesis by blast
qed

lemma streamUploadBlocks_mismatch:
  assumes "int (length (concat bs)) \<noteq> tot" and "\<forall>b \<in> set bs. b \<noteq> []"
  shows "\<exists>xs. sent (snd (streamUploadBlocks c tr ps bucket key ct uploadId pa tot bs net)) = net @ xs
    \<and> (\<forall>x \<in> set xs. req_method (built x) = ''PUT'')
    \<and> (list_all accepted (responses tr net xs) \<longrightarrow>
          fst (streamUploadBlocks c tr ps bucket key ct uploadId pa tot bs net) =
            Some (Inl (ErrString ''actual size does not match specified size'')))
    \<and> (\<not> list_all accepted (responses tr net xs) \<longrightarrow>
          xs \<noteq> [] \<and> list_all accepted (butlast (responses tr net xs))
          \<and> \<not> accepted (last (responses tr net xs))
          \<and> fst (streamUploadBlocks c tr ps bucket key ct uploadId pa tot bs net) =
              Some (Inl (ErrObject (parseError c (last (responses tr net xs))))))"
proof -
  let ?R = "streamUploadBlocks c tr ps bucket key ct uploadId pa tot bs net"
  from streamUploadBlocks_agrees [of c tr ps bucket key ct uploadId pa tot bs net]
  obtain xs where xs: "sent (snd ?R) = net @ xs" "\<forall>x \<in> set xs. req_method (built x) = ''PUT''"
    and ag: "agrees c (errored (snd ?R)) (responses tr net xs)"
    by blast
  have res: "fst ?R = Some (flush tot (snd ?R))"
    by (rule streamUploadBlocks_result [OF assms(2)])
  have nt: "\<not> thrown (snd ?R)"
    unfolding streamUploadBlocks_state
    by (rule run_not_thrown [OF _ assms(2)]) (simp add: initialState_def)
  have rne: "responses tr net xs \<noteq> [] \<Longrightarrow> xs \<noteq> []" by auto
  have "(list_all accepted (responses tr net xs) \<longrightarrow>
          fst ?R = Some (Inl (ErrString ''actual size does not match specified size'')))
    \<and> (\<not> list_all accepted (responses tr net xs) \<longrightarrow>
          xs \<noteq> [] \<and> list_all accepted (butlast (responses tr net xs))
          \<and> \<not> accepted (last (responses tr net xs))
          \<and> fst ?R = Some (Inl (ErrObject (parseError c (last (responses tr net xs))))))"
  proof (cases "errored (snd ?R)")
    case None
    from run_success [OF None [unfolded streamUploadBlocks_state] nt [unfolded streamUploadBlocks_state]]
    have "totalSeen (snd ?R) = int (length (concat bs))"
      unfolding streamUploadBlocks_state by (simp add: initialState_def sum_lengths)
    with assms(1) None have "flush tot (snd ?R) =
        Inl (ErrString ''actual size does not match specified size'')"
      by (simp add: flush_def)
    moreover from ag None have "list_all accepted (responses tr net xs)"
      by (simp add: agrees_def)
    ultimately show ?thesis using res by simp
  next
    case (Some e)
    then have fl: "flush tot (snd ?R) = Inl e" by (simp add: flush_def)
    from ag Some consider
      (size) "e = ErrString ''actual size does not match specified size''"
        "list_all accepted (responses tr net xs)"
    | (refused) "responses tr net xs \<noteq> []" "list_all accepted (butlast (responses tr net xs))"
        "\<not> accepted (last (responses tr net xs))"
        "e = ErrObject (parseError c (last (responses tr net xs)))"
      by (auto simp add: agrees_def)
    then show ?thesis
    proof cases
      case size
      then show ?thesis using res fl by simp
    next
      case refused
      from refused(1,3) have "\<not> list_all accepted (responses tr net xs)"
        by (metis last_in_set list_all_iff)
      with refused rne res fl show ?thesis by simp
    qed
  qed
  with xs show ?thesis by blast
qed

text \<open>
  C4, as amended. When the stream delivers a number of bytes other than the declared total,
  \<open>streamUpload\<close> reports an error and no manifest. The requests it has sent are the \<open>PUT\<close>
  requests of \<open>doPutObject\<close> and nothing else, so no completion request is among them. When
  the transport accepted every one of these part uploads, the error is the message
  \<open>actual size does not match specified size\<close>. Otherwise the upload refused is the last one
  sent, every upload before it was accepted, and the error reported is the error of that
  refused upload: what \<open>parseError\<close> makes of the answer to it.
\<close>

theorem streamUpload_size_mismatch:
  assumes "int (length (concat r)) \<noteq> totalSize"
  shows "\<exists>xs. sent (snd (streamUpload c tr ps bucket key ct uploadId pa totalSize r net)) = net @ xs
    \<and> (\<forall>x \<in> set xs. req_method (built x) = ''PUT'')
    \<and> (\<exists>e. fst (streamUpload c tr ps bucket key ct uploadId pa totalSize r net) = Some (Inl e))
    \<and> (list_all accepted (responses tr net xs) \<longrightarrow>
          fst (streamUpload c tr ps bucket key ct uploadId pa totalSize r net) =
            Some (Inl (ErrString ''actual size does not match specified size'')))
    \<and> (\<not> list_all accepted (responses tr net xs) \<longrightarrow>
          xs \<noteq> [] \<and> list_all accepted (butlast (responses tr net xs))
          \<and> \<not> accepted (last (responses tr net xs))
          \<and> fst (streamUpload c tr ps bucket key ct uploadId pa totalSize r net) =
              Some (Inl (ErrObject (parseError c (last (responses tr net xs))))))"
proof -
  let ?bs = "BlockStream2 (nat (calculatePartSize totalSize)) r"
  from assms have len: "int (length (concat ?bs)) \<noteq> totalSize"
    by (simp add: concat_BlockStream2)
  have ne: "\<forall>b \<in> set ?bs. b \<noteq> []"
    using BlockStream2_nonempty by blast
  let ?R = "streamUpload c tr ps bucket key ct uploadId pa totalSize r net"
  from streamUploadBlocks_mismatch [OF len ne, where c = c and tr = tr and ps = ps
      and bucket = bucket and key = key and ct = ct and uploadId = uploadId and pa = pa and net = net]
  obtain xs where xs: "sent (snd ?R) = net @ xs" "\<forall>x \<in> set xs. req_method (built x) = ''PUT''"
    and acc: "list_all accepted (responses tr net xs) \<longrightarrow>
          fst ?R = Some (Inl (ErrString ''actual size does not match specified size''))"
    and ref: "\<not> list_all accepted (responses tr net xs) \<longrightarrow>
          xs \<noteq> [] \<and> list_all accepted (butlast (responses tr net xs))
          \<and> \<not> accepted (last (responses tr net xs))
          \<and> fst ?R = Some (Inl (ErrObject (parseError c (last (responses tr net xs)))))"
    unfolding streamUpload_def by blast
  from acc ref have "\<exists>e. fst ?R = Some (Inl e)" by blast
  with xs acc ref show ?thesis by blast
qed

theorem streamUpload_size_mismatch_witness:
  "int (length (concat [''ab''])) \<noteq> 3
   \<and> fst (streamUpload sampleCollaborators acceptingServer sampleParams ''bucket'' ''key'' JNull ''id''
        [] 3 [''ab''] []) = Some (Inl (ErrString ''actual size does not match specified size''))"
proof -
  have h: "int (length (concat [''ab''])) \<noteq> 3" by simp
  have a: "list_all accepted (responses acceptingServer l ys)" for l ys
    by (induction ys arbitrary: l) (simp_all add: accepted_def acceptingServer_def)
  from streamUpload_size_mismatch [OF h, where tr = acceptingServer] a h
  show ?thesis by blast
qed

text \<open>
  The claim as first stated fails: the stream is one byte short of the declared total, the
  server refuses part 1, and the error reported is the server's, not the size message.
\<close>

theorem streamUpload_size_mismatch_after_refusal:
  "int (length (concat [replicate 5242880 CHR ''a''])) \<noteq> 5242881
   \<and> fst (streamUpload sampleCollaborators refusingServer sampleParams ''bucket'' ''key'' JNull ''id''
        [] 5242881 [replicate 5242880 CHR ''a''] []) = Some (Inl (ErrObject ''InternalError''))
   \<and> fst (streamUpload sampleCollaborators refusingServer sampleParams ''bucket'' ''key'' JNull ''id''
        [] 5242881 [replicate 5242880 CHR ''a''] []) \<noteq>
       Some (Inl (ErrString ''actual size does not match specified size''))"
  by (simp add: run_defs)


section \<open>The first error wins\<close>

lemma transform_trace_bound:
  assumes "\<forall>n. PutPart n \<in> set (trace s) \<or> HashPart n \<in> set (trace s) \<longrightarrow> n < part' s"
  shows "\<forall>n. PutPart n \<in> set (trace (transform c tr ps bucket key ct uploadId P tot s d))
              \<or> HashPart n \<in> set (trace (transform c tr ps bucket key ct uploadId P tot s d))
            \<longrightarrow> n < part' (transform c tr ps bucket key ct uploadId P tot s d)"
    and "part' (transform c tr ps bucket key ct uploadId P tot s d) \<le> Suc (part' s)"
  using assms
  by (cases rule: transform_cases [where s = s and c = c and tr = tr and ps = ps and bucket = bucket
        and key = key and ct = ct and uploadId = uploadId and P = P and tot = tot and d = d];
      auto simp add: less_Suc_eq)+

lemma run_trace_bound:
  "\<forall>n. PutPart n \<in> set (trace s) \<or> HashPart n \<in> set (trace s) \<longrightarrow> n < part' s \<Longrightarrow>
   (\<forall>n. PutPart n \<in> set (trace (foldl (deliver c tr ps bucket key ct uploadId P tot) s bs))
          \<or> HashPart n \<in> set (trace (foldl (deliver c tr ps bucket key ct uploadId P tot) s bs))
        \<longrightarrow> n < part' (foldl (deliver c tr ps bucket key ct uploadId P tot) s bs))
   \<and> part' (foldl (deliver c tr ps bucket key ct uploadId P tot) s bs) \<le> part' s + length bs"
proof (induction bs arbitrary: s)
  case Nil
  then show ?case by simp
next
  case (Cons b bs)
  note st = transform_trace_bound [OF Cons.prems, where c = c and tr = tr and ps = ps
      and bucket = bucket and key = key and ct = ct and uploadId = uploadId and P = P
      and tot = tot and d = b]
  have "(\<forall>n. PutPart n \<in> set (trace (deliver c tr ps bucket key ct uploadId P tot s b))
              \<or> HashPart n \<in> set (trace (deliver c tr ps bucket key ct uploadId P tot s b))
            \<longrightarrow> n < part' (deliver c tr ps bucket key ct uploadId P tot s b))"
    and le: "part' (deliver c tr ps bucket key ct uploadId P tot s b) \<le> Suc (part' s)"
    using st Cons.prems by (simp_all add: deliver_def)
  from Cons.IH [OF this(1)] le show ?case by auto
qed

lemma stateAfter_all:
  "length bs \<le> k \<Longrightarrow>
   snd (streamUploadBlocks c tr ps bucket key ct uploadId pa tot bs net) =
     stateAfter c tr ps bucket key ct uploadId pa tot bs net k"
  by (simp add: streamUploadBlocks_state stateAfter_def)

lemma stateAfter_stopped:
  assumes "thrown (stateAfter c tr ps bucket key ct uploadId pa tot bs net k)
      \<or> errored (stateAfter c tr ps bucket key ct uploadId pa tot bs net k) \<noteq> None"
    and "k \<le> j"
  shows "stateAfter c tr ps bucket key ct uploadId pa tot bs net j =
         stateAfter c tr ps bucket key ct uploadId pa tot bs net k"
proof -
  let ?T = "deliver c tr ps bucket key ct uploadId (calculatePartSize tot) tot"
  have "take j bs = take k bs @ take (j - k) (drop k bs)"
    using assms(2) by (metis le_add_diff_inverse take_add)
  then have "foldl ?T (initialState pa net) (take j bs) =
      foldl ?T (foldl ?T (initialState pa net) (take k bs)) (take (j - k) (drop k bs))"
    by simp
  with assms(1) show ?thesis
    unfolding stateAfter_def by (simp only: foldl_deliver_stopped)
qed

lemma stateAfter_trace_bound:
  "(\<forall>n. PutPart n \<in> set (trace (stateAfter c tr ps bucket key ct uploadId pa tot bs net k))
          \<or> HashPart n \<in> set (trace (stateAfter c tr ps bucket key ct uploadId pa tot bs net k))
        \<longrightarrow> n \<le> k)"
proof -
  have "\<forall>n. PutPart n \<in> set (trace (initialState pa net :: 'a orchestrator))
      \<or> HashPart n \<in> set (trace (initialState pa net :: 'a orchestrator))
      \<longrightarrow> n < part' (initialState pa net :: 'a orchestrator)"
    by (simp add: initialState_def)
  from run_trace_bound [OF this, where bs = "take k bs" and c = c and tr = tr and ps = ps
      and bucket = bucket and key = key and ct = ct and uploadId = uploadId
      and P = "calculatePartSize tot" and tot = tot]
  show ?thesis
    by (auto simp add: stateAfter_def initialState_def)
qed

lemma stateAfter_not_thrown:
  "\<forall>b \<in> set bs. b \<noteq> [] \<Longrightarrow>
   \<not> thrown (stateAfter c tr ps bucket key ct uploadId pa tot bs net k)"
  unfolding stateAfter_def
  by (rule run_not_thrown) (auto simp add: initialState_def dest: in_set_takeD)

lemma stateAfter_step:
  assumes "k < length bs"
    and "\<not> thrown (stateAfter c tr ps bucket key ct uploadId pa tot bs net k)"
  shows "stateAfter c tr ps bucket key ct uploadId pa tot bs net (Suc k) =
     transform c tr ps bucket key ct uploadId (calculatePartSize tot) tot
       (stateAfter c tr ps bucket key ct uploadId pa tot bs net k) (bs ! k)"
  using assms by (simp add: stateAfter_def take_Suc_conv_app_nth deliver_def)

lemma stateAfter_part:
  assumes "errored (stateAfter c tr ps bucket key ct uploadId pa tot bs net k) = None"
    and "\<not> thrown (stateAfter c tr ps bucket key ct uploadId pa tot bs net k)"
    and "k \<le> length bs"
  shows "part' (stateAfter c tr ps bucket key ct uploadId pa tot bs net k) = Suc k"
  using run_success [OF assms(1,2) [unfolded stateAfter_def]] assms(3)
  by (simp add: stateAfter_def initialState_def)

lemma transform_put_failed:
  assumes "errored s = None"
    and "PutPart (part' s) \<notin> set (trace s)"
    and "PutPart (part' s) \<in> set (trace (transform c tr ps bucket key ct uploadId P tot s d))"
    and "fst (doPutObject c tr ps bucket key ct (int (length d)) uploadId (Some (part' s))
           (Ended [d]) (sent s)) = Some (Inl e)"
  shows "errored (transform c tr ps bucket key ct uploadId P tot s d) = Some e"
  using assms
  by (auto simp add: transform_def uploadPart_def putCallback_def Let_def
      split: if_splits list.splits prod.splits option.splits)

text \<open>
  C5. Let the upload of part \<open>k\<close> fail: no error is latched when the first \<open>k - 1\<close> blocks
  are done, \<open>doPutObject\<close> is invoked for part \<open>k\<close>, and this invocation reports the error
  \<open>e\<close> to its callback. Then \<open>e\<close> is latched, and \<open>streamUpload\<close> reports exactly \<open>e\<close>. Its
  final state is the state reached after block \<open>k\<close>: nothing is hashed, uploaded or sent
  afterwards, and no event of the run concerns a part after \<open>k\<close>. Every later block and
  every later completion of an upload leaves the state, and with it the latched error, as
  it is. The requests sent are \<open>PUT\<close> requests only, so no completion request is issued.
\<close>

theorem streamUpload_first_error:
  assumes "bs = BlockStream2 (nat (calculatePartSize totalSize)) r"
    and "1 \<le> k" and "k \<le> length bs"
    and "errored (stateAfter c tr ps bucket key ct uploadId pa totalSize bs net (k - 1)) = None"
    and "PutPart k \<in> set (trace (stateAfter c tr ps bucket key ct uploadId pa totalSize bs net k))"
    and "fst (doPutObject c tr ps bucket key ct (int (length (bs ! (k - 1)))) uploadId (Some k)
           (Ended [bs ! (k - 1)])
           (sent (stateAfter c tr ps bucket key ct uploadId pa totalSize bs net (k - 1)))) =
         Some (Inl e)"
  shows "errored (stateAfter c tr ps bucket key ct uploadId pa totalSize bs net k) = Some e
    \<and> fst (streamUpload c tr ps bucket key ct uploadId pa totalSize r net) = Some (Inl e)
    \<and> snd (streamUpload c tr ps bucket key ct uploadId pa totalSize r net) =
        stateAfter c tr ps bucket key ct uploadId pa totalSize bs net k
    \<and> (\<forall>n. k < n \<longrightarrow>
          PutPart n \<notin> set (trace (snd (streamUpload c tr ps bucket key ct uploadId pa totalSize r net)))
          \<and> HashPart n \<notin> set (trace (snd (streamUpload c tr ps bucket key ct uploadId pa totalSize r net))))
    \<and> (\<forall>d. transform c tr ps bucket key ct uploadId (calculatePartSize totalSize) totalSize
              (snd (streamUpload c tr ps bucket key ct uploadId pa totalSize r net)) d =
            snd (streamUpload c tr ps bucket key ct uploadId pa totalSize r net))
    \<and> (\<forall>p res. putCallback p res (snd (streamUpload c tr ps bucket key ct uploadId pa totalSize r net)) =
            snd (streamUpload c tr ps bucket key ct uploadId pa totalSize r net))
    \<and> (\<exists>xs. sent (snd (streamUpload c tr ps bucket key ct uploadId pa totalSize r net)) = net @ xs
            \<and> (\<forall>x \<in> set xs. req_method (built x) = ''PUT''))"
proof -
  let ?after = "stateAfter c tr ps bucket key ct uploadId pa totalSize bs net"
  let ?k = "?after k"
  let ?s = "?after (k - 1)"
  let ?R = "streamUpload c tr ps bucket key ct uploadId pa totalSize r net"
  have su: "?R = streamUploadBlocks c tr ps bucket key ct uploadId pa totalSize bs net"
    unfolding assms(1) by (simp add: streamUpload_def)
  have ne: "\<forall>b \<in> set bs. b \<noteq> []"
    unfolding assms(1) using BlockStream2_nonempty by blast
  have nt: "\<not> thrown (?after j)" for j
    by (rule stateAfter_not_thrown [OF ne])
  from assms(2) have k: "Suc (k - 1) = k" by simp
  from assms(2,3) have lt: "k - 1 < length bs" by simp
  have p: "part' ?s = k"
    using stateAfter_part [OF assms(4) nt] lt k by simp
  have step: "?k = transform c tr ps bucket key ct uploadId (calculatePartSize totalSize) totalSize
      ?s (bs ! (k - 1))"
    using stateAfter_step [OF lt nt] unfolding k .
  have np: "PutPart k \<notin> set (trace ?s)"
    using stateAfter_trace_bound [where c = c and tr = tr and ps = ps and bucket = bucket
        and key = key and ct = ct and uploadId = uploadId and pa = pa and tot = totalSize
        and bs = bs and net = net and k = "k - 1"] assms(2)
    by (metis Suc_n_not_le_n k)
  have a2: "PutPart (part' ?s) \<notin> set (trace ?s)"
    unfolding p by (fact np)
  have a3: "PutPart (part' ?s) \<in> set (trace (transform c tr ps bucket key ct uploadId
      (calculatePartSize totalSize) totalSize ?s (bs ! (k - 1))))"
    unfolding p step [symmetric] by (fact assms(5))
  have a4: "fst (doPutObject c tr ps bucket key ct (int (length (bs ! (k - 1)))) uploadId
      (Some (part' ?s)) (Ended [bs ! (k - 1)]) (sent ?s)) = Some (Inl e)"
    unfolding p by (fact assms(6))
  have latch: "errored ?k = Some e"
    unfolding step by (rule transform_put_failed [OF assms(4) a2 a3 a4])
  then have stop: "thrown ?k \<or> errored ?k \<noteq> None" by simp
  have "snd (streamUploadBlocks c tr ps bucket key ct uploadId pa totalSize bs net) =
      ?after (length bs)"
    by (rule stateAfter_all) simp
  also have "\<dots> = ?k"
    by (rule stateAfter_stopped [OF stop assms(3)])
  finally have fin: "snd ?R = ?k"
    unfolding su .
  have "fst ?R = Some (flush totalSize (snd ?R))"
    unfolding su by (rule streamUploadBlocks_result [OF ne])
  then have 1: "fst ?R = Some (Inl e)" unfolding fin using latch by (simp add: flush_def)
  have 3: "\<forall>n. k < n \<longrightarrow> PutPart n \<notin> set (trace ?k) \<and> HashPart n \<notin> set (trace ?k)"
    using stateAfter_trace_bound [where c = c and tr = tr and ps = ps and bucket = bucket
        and key = key and ct = ct and uploadId = uploadId and pa = pa and tot = totalSize
        and bs = bs and net = net and k = k]
    by (metis not_le)
  have 4: "\<forall>d. transform c tr ps bucket key ct uploadId (calculatePartSize totalSize) totalSize ?k d = ?k"
    using latch by (simp add: transform_latched)
  have 5: "\<forall>p res. putCallback p res ?k = ?k"
    using latch by (simp add: putCallback_def)
  have 6: "\<exists>xs. sent ?k = net @ xs \<and> (\<forall>x \<in> set xs. req_method (built x) = ''PUT'')"
    using streamUploadBlocks_sent [of c tr ps bucket key ct uploadId pa totalSize bs net]
    unfolding su [symmetric] fin .
  show ?thesis unfolding fin using latch 1 [unfolded fin] 1 3 4 5 6 by simp
qed

theorem streamUpload_first_error_witness:
  "BlockStream2 (nat (calculatePartSize 10485763))
       [replicate 5242880 CHR ''a'', replicate 5242880 CHR ''b'', ''abc''] =
     [replicate 5242880 CHR ''a'', replicate 5242880 CHR ''b'', ''abc'']
   \<and> fst (streamUpload sampleCollaborators refusingSecondServer sampleParams ''bucket'' ''key''
        JNull ''id'' [] 10485763
        [replicate 5242880 CHR ''a'', replicate 5242880 CHR ''b'', ''abc''] []) =
       Some (Inl (ErrObject ''InternalError''))
   \<and> trace (snd (streamUpload sampleCollaborators refusingSecondServer sampleParams ''bucket'' ''key''
        JNull ''id'' [] 10485763
        [replicate 5242880 CHR ''a'', replicate 5242880 CHR ''b'', ''abc''] [])) =
       [PutPart 1, PutPart 2]
   \<and> etags (snd (streamUpload sampleCollaborators refusingSecondServer sampleParams ''bucket'' ''key''
        JNull ''id'' [] 10485763
        [replicate 5242880 CHR ''a'', replicate 5242880 CHR ''b'', ''abc''] [])) =
       [\<lparr>part = 1, etag = JStr ''tag''\<rparr>]
   \<and> map body (sent (snd (streamUpload sampleCollaborators refusingSecondServer sampleParams ''bucket''
        ''key'' JNull ''id'' [] 10485763
        [replicate 5242880 CHR ''a'', replicate 5242880 CHR ''b'', ''abc''] []))) =
       [replicate 5242880 CHR ''a'', replicate 5242880 CHR ''b'']"
proof -
  let ?bs = "[replicate 5242880 CHR ''a'', replicate 5242880 CHR ''b'', ''abc'']"
  let ?R = "streamUpload sampleCollaborators refusingSecondServer sampleParams ''bucket'' ''key''
        JNull ''id'' [] 10485763 ?bs []"
  let ?after = "stateAfter sampleCollaborators refusingSecondServer sampleParams ''bucket'' ''key''
        JNull ''id'' [] 10485763 ?bs []"
  have h1: "?bs = BlockStream2 (nat (calculatePartSize 10485763)) ?bs"
    by (simp add: run_defs)
  have h2: "1 \<le> (2::nat)" and h3: "2 \<le> length ?bs" by simp_all
  have h4: "errored (?after (2 - 1)) = None"
    by (simp add: run_defs)
  have two: "take 2 ?bs = [replicate 5242880 CHR ''a'', replicate 5242880 CHR ''b'']"
    by (simp add: numeral_2_eq_2)
  have after: "trace (?after 2) = [PutPart 1, PutPart 2]"
    "etags (?after 2) = [\<lparr>part = 1, etag = JStr ''tag''\<rparr>]"
    "map body (sent (?after 2)) = [replicate 5242880 CHR ''a'', replicate 5242880 CHR ''b'']"
    unfolding stateAfter_def two by (simp_all add: run_defs)
  have h5: "PutPart 2 \<in> set (trace (?after 2))" unfolding after by simp
  have h6: "fst (doPutObject sampleCollaborators refusingSecondServer sampleParams ''bucket'' ''key''
      JNull (int (length (?bs ! (2 - 1)))) ''id'' (Some 2) (Ended [?bs ! (2 - 1)])
      (sent (?after (2 - 1)))) = Some (Inl (ErrObject ''InternalError''))"
    by (simp add: run_defs)
  from streamUpload_first_error [OF h1 h2 h3 h4 h5 h6]
  have "fst ?R = Some (Inl (ErrObject ''InternalError''))" and "snd ?R = ?after 2"
    by blast+
  with h1 after show ?thesis by simp
qed


section \<open>The request of the part uploader\<close>

lemma lowerChar_not_upper:
  "\<not> (65 \<le> (of_char (lowerChar ch) :: nat) \<and> (of_char (lowerChar ch) :: nat) \<le> 90)"
  by (simp add: lowerChar_def Let_def)

text \<open>
  C6. When the payload that \<open>Concat\<close> hands over has a length other than the declared size,
  \<open>doPutObject\<close> reports the error string \<open>actual size !== specified size\<close> and leaves the
  network log as it was: no request is built, signed or sent. Whenever \<open>doPutObject\<close> adds
  to the log, the stream has ended and the two lengths are equal. When they are equal and
  the payload is not empty, one request carrying the payload is sent; when they are equal
  and the payload is empty, an exception escapes, nothing is sent and the callback is not
  called.
\<close>

theorem doPutObject_size_check:
  "(int (length (concat chunks)) \<noteq> size' \<longrightarrow>
      doPutObject c tr ps bucket key ct size' uploadId partNo (Ended chunks) net =
        (Some (Inl (ErrString ''actual size !== specified size'')), net))
   \<and> (snd (doPutObject c tr ps bucket key ct size' uploadId partNo r net) \<noteq> net \<longrightarrow>
        (\<exists>cs. r = Ended cs \<and> int (length (concat cs)) = size'))
   \<and> (int (length (concat chunks)) = size' \<and> concat chunks \<noteq> [] \<longrightarrow>
        (\<exists>x. snd (doPutObject c tr ps bucket key ct size' uploadId partNo (Ended chunks) net) = net @ [x]
             \<and> body x = concat chunks))
   \<and> (int (length (concat chunks)) = size' \<and> concat chunks = [] \<longrightarrow>
        doPutObject c tr ps bucket key ct size' uploadId partNo (Ended chunks) net = (None, net))"
  by (cases r) (auto simp add: doPutObject_def Let_def)

theorem doPutObject_size_check_witness:
  "doPutObject sampleCollaborators acceptingServer sampleParams ''bucket'' ''key'' JNull 4 ''id''
      (Some 1) (Ended [''ab'', ''c'']) [] =
     (Some (Inl (ErrString ''actual size !== specified size'')), [])
   \<and> map body (snd (doPutObject sampleCollaborators acceptingServer sampleParams ''bucket'' ''key''
        JNull 3 ''id'' (Some 1) (Ended [''ab'', ''c'']) [])) = [''abc'']
   \<and> doPutObject sampleCollaborators acceptingServer sampleParams ''bucket'' ''key'' JNull 0 ''id''
        None (Ended []) [] = (None, [])"
  using doPutObject_size_check [where c = sampleCollaborators and tr = acceptingServer
      and ps = sampleParams and bucket = "''bucket''" and key = "''key''" and ct = JNull
      and size' = 4 and uploadId = "''id''" and partNo = "Some 1" and chunks = "[''ab'', ''c'']"
      and net = "[]" and r = "Ended [''ab'', ''c'']"]
    doPutObject_size_check [where c = sampleCollaborators and tr = acceptingServer
      and ps = sampleParams and bucket = "''bucket''" and key = "''key''" and ct = JNull
      and size' = 3 and uploadId = "''id''" and partNo = "Some 1" and chunks = "[''ab'', ''c'']"
      and net = "[]" and r = "Ended [''ab'', ''c'']"]
    doPutObject_size_check [where c = sampleCollaborators and tr = acceptingServer
      and ps = sampleParams and bucket = "''bucket''" and key = "''key''" and ct = JNull
      and size' = 0 and uploadId = "''id''" and partNo = None and chunks = "[]"
      and net = "[]" and r = "Ended []"]
  by auto

text \<open>
  C7. For a buffer of the declared length that is not empty, \<open>doPutObject\<close> sends one
  request. As built it is a \<open>PUT\<close>. Its path is \<open>/bucket/key?partNumber=n&uploadId=id\<close>, the
  key escaped by \<open>uriResourceEscape\<close>, when the part number \<open>n\<close> is not zero, and
  \<open>/bucket/key\<close> with no query when the part number is absent or zero. Its headers are
  \<open>Content-Length\<close> with the declared size, \<open>Content-Type\<close>, and \<open>Content-MD5\<close> with the
  base64 MD5 digest of the buffer. It is signed with the hexadecimal SHA-256 digest of the
  buffer in lower case (no letter from \<open>A\<close> to \<open>Z\<close> is left in it) and the two keys of
  \<open>params\<close>, and its body is the buffer. The callback receives the parsed error when the
  status is not 200 and the \<open>etag\<close> header otherwise.

  For the empty buffer of declared length 0, where the claim asks for the same request,
  the code builds none: \<open>Concat\<close> hands over the empty array, the digest update throws, the
  log stays as it was and the callback is never called.
\<close>

theorem doPutObject_request:
  assumes "int (length (concat chunks)) = size'"
  shows "(concat chunks \<noteq> [] \<longrightarrow>
     (\<exists>x. snd (doPutObject c tr ps bucket key ct size' uploadId partNo (Ended chunks) net) = net @ [x]
     \<and> req_method (built x) = ''PUT''
     \<and> (\<forall>n. partNo = Some n \<and> n \<noteq> 0 \<longrightarrow>
          req_path (built x) = ''/'' @ bucket @ ''/'' @ uriResourceEscape c key @
            ''?partNumber='' @ toString n @ ''&uploadId='' @ uploadId)
     \<and> (partNo = None \<or> partNo = Some 0 \<longrightarrow>
          req_path (built x) = ''/'' @ bucket @ ''/'' @ uriResourceEscape c key)
     \<and> req_host (built x) = host ps \<and> req_port (built x) = port ps
     \<and> req_protocol (built x) = protocol ps
     \<and> req_headers (built x) =
          [(''Content-Length'', JNum size'),
           (''Content-Type'', if ct = JNull \<or> ct = JStr [] then JStr ''application/octet-stream'' else ct),
           (''Content-MD5'', JStr (md5_base64 c (concat chunks)))]
     \<and> payloadHash x = toLowerCase (sha256_hex c (concat chunks))
     \<and> (\<forall>ch \<in> set (payloadHash x). \<not> (65 \<le> (of_char ch :: nat) \<and> (of_char ch :: nat) \<le> 90))
     \<and> wire x = signV4 c (built x) (payloadHash x) (accessKey ps) (secretKey ps)
     \<and> body x = concat chunks
     \<and> fst (doPutObject c tr ps bucket key ct size' uploadId partNo (Ended chunks) net) =
          Some (if statusCode (tr net (wire x) (body x)) \<noteq> 200
                then Inl (ErrObject (parseError c (tr net (wire x) (body x))))
                else Inr (case map_of (resp_headers (tr net (wire x) (body x))) ''etag'' of
                            None \<Rightarrow> JUndefined | Some v \<Rightarrow> JStr v))))
   \<and> (concat chunks = [] \<longrightarrow>
        doPutObject c tr ps bucket key ct size' uploadId partNo (Ended chunks) net = (None, net))"
proof -
  have low: "\<forall>ch \<in> set (toLowerCase s). \<not> (65 \<le> (of_char ch :: nat) \<and> (of_char ch :: nat) \<le> 90)"
    for s
    using lowerChar_not_upper by (auto simp add: toLowerCase_def)
  show ?thesis
    using assms low [of "sha256_hex c (concat chunks)"]
    by (simp add: doPutObject_Ended Let_def split: option.splits)
qed

theorem doPutObject_request_witness:
  "int (length (concat [''abc''])) = 3
   \<and> map (\<lambda>x. req_path (built x))
        (snd (doPutObject sampleCollaborators acceptingServer sampleParams ''bucket'' ''key'' JNull 3
           ''id'' (Some 12) (Ended [''abc'']) [])) = [''/bucket/key?partNumber=12&uploadId=id'']
   \<and> map (\<lambda>x. req_path (built x))
        (snd (doPutObject sampleCollaborators acceptingServer sampleParams ''bucket'' ''key'' JNull 3
           ''id'' None (Ended [''abc'']) [])) = [''/bucket/key'']
   \<and> map (\<lambda>x. req_method (built x))
        (snd (doPutObject sampleCollaborators acceptingServer sampleParams ''bucket'' ''key'' JNull 3
           ''id'' (Some 12) (Ended [''abc'']) [])) = [''PUT'']
   \<and> map payloadHash
        (snd (doPutObject sampleCollaborators acceptingServer sampleParams ''bucket'' ''key'' JNull 3
           ''id'' (Some 12) (Ended [''abc'']) [])) = [''ba7816bf'']
   \<and> int (length (concat ([] :: buffer list))) = 0
   \<and> doPutObject sampleCollaborators acceptingServer sampleParams ''bucket'' ''key'' JNull 0
        ''id'' None (Ended []) [] = (None, [])"
proof -
  have h: "int (length (concat [''abc''])) = 3" by simp
  have ne: "concat [''abc''] \<noteq> []" by simp
  have h0: "int (length (concat ([] :: buffer list))) = 0" by simp
  from doPutObject_request [OF h, where c = sampleCollaborators and tr = acceptingServer
      and ps = sampleParams and bucket = "''bucket''" and key = "''key''" and ct = JNull
      and uploadId = "''id''" and partNo = "Some 12" and net = "[]"] ne
  obtain x where x: "snd (doPutObject sampleCollaborators acceptingServer sampleParams ''bucket''
        ''key'' JNull 3 ''id'' (Some 12) (Ended [''abc'']) []) = [] @ [x]"
    "req_method (built x) = ''PUT''"
    "\<forall>n. Some 12 = Some n \<and> n \<noteq> 0 \<longrightarrow>
        req_path (built x) = ''/'' @ ''bucket'' @ ''/'' @ uriResourceEscape sampleCollaborators ''key'' @
          ''?partNumber='' @ toString n @ ''&uploadId='' @ ''id''"
    "payloadHash x = toLowerCase (sha256_hex sampleCollaborators (concat [''abc'']))"
    by blast
  from doPutObject_request [OF h, where c = sampleCollaborators and tr = acceptingServer
      and ps = sampleParams and bucket = "''bucket''" and key = "''key''" and ct = JNull
      and uploadId = "''id''" and partNo = None and net = "[]"] ne
  obtain y where y: "snd (doPutObject sampleCollaborators acceptingServer sampleParams ''bucket''
        ''key'' JNull 3 ''id'' None (Ended [''abc'']) []) = [] @ [y]"
    "None = None \<or> None = Some 0 \<longrightarrow>
        req_path (built y) = ''/'' @ ''bucket'' @ ''/'' @ uriResourceEscape sampleCollaborators ''key''"
    by blast
  from doPutObject_request [OF h0, where c = sampleCollaborators and tr = acceptingServer
      and ps = sampleParams and bucket = "''bucket''" and key = "''key''" and ct = JNull
      and uploadId = "''id''" and partNo = None and net = "[]"]
  have z: "doPutObject sampleCollaborators acceptingServer sampleParams ''bucket'' ''key'' JNull 0
        ''id'' None (Ended []) [] = (None, [])"
    by simp
  from x y z show ?thesis
    by (simp add: sampleCollaborators_def toString.simps digitChar_def toLowerCase_def lowerChar_def)
qed

text \<open>
  C8. The content type \<open>null\<close> and the empty content type are replaced by
  \<open>application/octet-stream\<close>, and another string is kept. The \<open>undefined\<close> content type is
  not replaced: \<open>contentType === null\<close> does not hold for it, and the request is built with
  a \<open>Content-Type\<close> header that is \<open>undefined\<close>, where the claim asks for the default. This
  is for every buffer of the declared length for which a request is built, that is, every
  such buffer that is not empty.
\<close>

theorem doPutObject_contentType_default:
  assumes "concat chunks \<noteq> []"
  shows "map_of (req_headers (built (last (snd
      (doPutObject c tr ps bucket key JUndefined (int (length (concat chunks))) uploadId partNo
         (Ended chunks) net))))) ''Content-Type'' = Some JUndefined
   \<and> map_of (req_headers (built (last (snd
      (doPutObject c tr ps bucket key JNull (int (length (concat chunks))) uploadId partNo
         (Ended chunks) net))))) ''Content-Type'' = Some (JStr ''application/octet-stream'')
   \<and> map_of (req_headers (built (last (snd
      (doPutObject c tr ps bucket key (JStr []) (int (length (concat chunks))) uploadId partNo
         (Ended chunks) net))))) ''Content-Type'' = Some (JStr ''application/octet-stream'')
   \<and> map_of (req_headers (built (last (snd
      (doPutObject c tr ps bucket key (JStr ''text/plain'') (int (length (concat chunks))) uploadId
         partNo (Ended chunks) net))))) ''Content-Type'' = Some (JStr ''text/plain'')"
  using assms by (auto simp add: doPutObject_Ended Let_def)

theorem doPutObject_contentType_default_witness:
  "concat [''abc''] \<noteq> []
   \<and> map (\<lambda>x. map_of (req_headers (built x)) ''Content-Type'')
        (snd (doPutObject sampleCollaborators acceptingServer sampleParams ''bucket'' ''key''
           JUndefined 3 ''id'' (Some 1) (Ended [''abc'']) [])) = [Some JUndefined]"
proof -
  have ne: "concat [''abc''] \<noteq> []" by simp
  have one: "length (snd (doPutObject sampleCollaborators acceptingServer sampleParams ''bucket''
      ''key'' JUndefined 3 ''id'' (Some 1) (Ended [''abc'']) [])) = 1"
    by (simp add: doPutObject_Ended Let_def)
  then obtain x where x: "snd (doPutObject sampleCollaborators acceptingServer sampleParams
      ''bucket'' ''key'' JUndefined 3 ''id'' (Some 1) (Ended [''abc'']) []) = [x]"
    by (auto simp add: length_Suc_conv)
  from doPutObject_contentType_default [OF ne, where c = sampleCollaborators
      and tr = acceptingServer and ps = sampleParams and bucket = "''bucket''" and key = "''key''"
      and uploadId = "''id''" and partNo = "Some 1" and net = "[]"]
  have "map_of (req_headers (built (last (snd
      (doPutObject sampleCollaborators acceptingServer sampleParams ''bucket'' ''key'' JUndefined 3
         ''id'' (Some 1) (Ended [''abc'']) []))))) ''Content-Type'' = Some JUndefined"
    by simp
  with x ne show ?thesis by simp
qed

section \<open>The empty stream\<close>

lemma BlockStream2_empty:
  assumes "concat r = []"
  shows "BlockStream2 n r = []"
proof -
  have "chop m [] = ([] :: buffer list)" for m by (simp add: chop.simps)
  then show ?thesis unfolding BlockStream2_def assms .
qed

text \<open>
  C9, as amended. For a stream that delivers no byte and a declared total of 0 the
  re-chunker emits no block, and \<open>streamUpload\<close> reports success with the empty manifest:
  no part is uploaded, no request is sent and no error is raised.
\<close>

theorem streamUpload_empty_stream:
  assumes "concat r = []"
  shows "streamUpload c tr ps bucket key ct uploadId pa 0 r net =
    (Some (Inr []), initialState pa net)"
  using assms
  by (simp add: streamUpload_def streamUploadBlocks_def BlockStream2_empty flush_def initialState_def)

theorem streamUpload_empty_stream_witness:
  "concat [[], []] = ([] :: buffer)
   \<and> streamUpload sampleCollaborators acceptingServer sampleParams ''bucket'' ''key'' JNull ''id'' [] 0
       [[], []] [] = (Some (Inr []), initialState [] [])"
proof -
  have h: "concat [[], []] = ([] :: buffer)" by simp
  from streamUpload_empty_stream [OF h] h show ?thesis by blast
qed

text \<open>
  The claim as first stated fails: on the empty stream with declared total 0 the callback
  receives the empty manifest, while nothing was uploaded and nothing was rejected.
\<close>

theorem streamUpload_empty_manifest:
  "fst (streamUpload sampleCollaborators acceptingServer sampleParams ''bucket'' ''key'' JNull ''id''
          [] 0 [] []) = Some (Inr [])
   \<and> trace (snd (streamUpload sampleCollaborators acceptingServer sampleParams ''bucket'' ''key'' JNull
          ''id'' [] 0 [] [])) = []
   \<and> sent (snd (streamUpload sampleCollaborators acceptingServer sampleParams ''bucket'' ''key'' JNull
          ''id'' [] 0 [] [])) = []"
  by (simp add: run_defs)

text \<open>
  Had a block of length zero reached the transform function, \<open>doPutObject\<close> would have been
  invoked for part 1 and the digest update would have thrown: nothing is sent and no
  callback is called. \<open>BlockStream2\<close> emits no such block.
\<close>

lemma streamUploadBlocks_zero_length_block:
  "fst (streamUploadBlocks c tr ps bucket key ct uploadId [] 0 [[]] net) = None
   \<and> trace (snd (streamUploadBlocks c tr ps bucket key ct uploadId [] 0 [[]] net)) = [PutPart 1]
   \<and> sent (snd (streamUploadBlocks c tr ps bucket key ct uploadId [] 0 [[]] net)) = net"
  by (simp add: streamUploadBlocks_def initialState_def deliver_def transform_def uploadPart_def
      doPutObject_Ended calculatePartSize_def Let_def)

section \<open>Records of the resume manifest are consumed in order\<close>

text \<open>
  C10, as amended. When a block passes the error latch and the size check (lines 78 to 88)
  while \<open>partsArray\<close> is not empty, the transform function removes the head record,
  whether its stored hash equals the digest of the block or not, and computes that digest;
  whatever blocks follow, \<open>partsArray\<close> stays a suffix of what was left, so the removed
  record is never compared with a later part. A block stopped by the latch or by the size
  check removes nothing: \<open>partsArray\<close> is as before. Over a whole run the records removed
  are as many as the blocks that passed both checks (\<open>part\<close> counts them, starting from
  1), while records remain; on success that is one record for every block.
\<close>

theorem resume_head_removed:
  "(errored s = None \<and> \<not> (int (length d) < P \<and> tot - totalSeen s \<noteq> int (length d))
      \<and> partsArray s = rec # rest \<longrightarrow>
      partsArray (transform c tr ps bucket key ct uploadId P tot s d) = rest
      \<and> HashPart (part' s) \<in> set (trace (transform c tr ps bucket key ct uploadId P tot s d))
      \<and> part' (transform c tr ps bucket key ct uploadId P tot s d) = Suc (part' s)
      \<and> (\<forall>bs. \<exists>j. partsArray (foldl (deliver c tr ps bucket key ct uploadId P tot)
                       (transform c tr ps bucket key ct uploadId P tot s d) bs) = drop j rest))
   \<and> (errored s \<noteq> None \<or> (int (length d) < P \<and> tot - totalSeen s \<noteq> int (length d)) \<longrightarrow>
        partsArray (transform c tr ps bucket key ct uploadId P tot s d) = partsArray s
        \<and> trace (transform c tr ps bucket key ct uploadId P tot s d) = trace s
        \<and> part' (transform c tr ps bucket key ct uploadId P tot s d) = part' s)
   \<and> partsArray (snd (streamUpload c tr ps bucket key ct uploadId pa totalSize r net)) =
       drop (part' (snd (streamUpload c tr ps bucket key ct uploadId pa totalSize r net)) - 1) pa
   \<and> (\<forall>M. fst (streamUpload c tr ps bucket key ct uploadId pa totalSize r net) = Some (Inr M) \<longrightarrow>
        partsArray (snd (streamUpload c tr ps bucket key ct uploadId pa totalSize r net)) =
          drop (length (BlockStream2 (nat (calculatePartSize totalSize)) r)) pa)"
proof (intro conjI impI allI)
  let ?T = "transform c tr ps bucket key ct uploadId P tot"
  assume a: "errored s = None \<and> \<not> (int (length d) < P \<and> tot - totalSeen s \<noteq> int (length d))
      \<and> partsArray s = rec # rest"
  then show 1: "partsArray (?T s d) = rest"
    by (cases rule: transform_cases [where s = s and c = c and tr = tr and ps = ps
          and bucket = bucket and key = key and ct = ct and uploadId = uploadId and P = P
          and tot = tot and d = d]) auto
  from a show "HashPart (part' s) \<in> set (trace (?T s d))"
    by (cases rule: transform_cases [where s = s and c = c and tr = tr and ps = ps
          and bucket = bucket and key = key and ct = ct and uploadId = uploadId and P = P
          and tot = tot and d = d]) auto
  from a show "part' (?T s d) = Suc (part' s)"
    by (cases rule: transform_cases [where s = s and c = c and tr = tr and ps = ps
          and bucket = bucket and key = key and ct = ct and uploadId = uploadId and P = P
          and tot = tot and d = d]) auto
  fix bs
  from run_grows [where s = "?T s d" and bs = bs and c = c and tr = tr and ps = ps
      and bucket = bucket and key = key and ct = ct and uploadId = uploadId and P = P and tot = tot]
  show "\<exists>j. partsArray (foldl (deliver c tr ps bucket key ct uploadId P tot) (?T s d) bs) =
      drop j rest"
    unfolding 1 by blast
next
  let ?T = "transform c tr ps bucket key ct uploadId P tot"
  assume b: "errored s \<noteq> None \<or> (int (length d) < P \<and> tot - totalSeen s \<noteq> int (length d))"
  then show "partsArray (?T s d) = partsArray s" by (auto simp add: transform_def)
  from b show "trace (?T s d) = trace s" by (auto simp add: transform_def)
  from b show "part' (?T s d) = part' s" by (auto simp add: transform_def)
next
  let ?bs = "BlockStream2 (nat (calculatePartSize totalSize)) r"
  from run_grows [where s = "initialState pa net" and bs = ?bs and c = c and tr = tr and ps = ps
      and bucket = bucket and key = key and ct = ct and uploadId = uploadId
      and P = "calculatePartSize totalSize" and tot = totalSize]
  show "partsArray (snd (streamUpload c tr ps bucket key ct uploadId pa totalSize r net)) =
       drop (part' (snd (streamUpload c tr ps bucket key ct uploadId pa totalSize r net)) - 1) pa"
    by (simp add: streamUpload_def streamUploadBlocks_state initialState_def)
next
  fix M
  assume "fst (streamUpload c tr ps bucket key ct uploadId pa totalSize r net) = Some (Inr M)"
  then show "partsArray (snd (streamUpload c tr ps bucket key ct uploadId pa totalSize r net)) =
          drop (length (BlockStream2 (nat (calculatePartSize totalSize)) r)) pa"
    unfolding streamUpload_def by (rule streamUploadBlocks_success(5))
qed

theorem resume_head_removed_witness:
  "etag \<lparr>part = 1, etag = JStr ''0cc175b9c0f1b6a831c399e269772661''\<rparr> \<noteq>
     JStr (toLowerCase (md5_hex sampleCollaborators ''abc''))
   \<and> partsArray (transform sampleCollaborators acceptingServer sampleParams ''bucket'' ''key'' JNull
        ''id'' 5242880 3
        (initialState [\<lparr>part = 1, etag = JStr ''0cc175b9c0f1b6a831c399e269772661''\<rparr>,
                       \<lparr>part = 2, etag = JStr ''900150983cd24fb0d6963f7d28e17f72''\<rparr>] [])
        ''abc'') = [\<lparr>part = 2, etag = JStr ''900150983cd24fb0d6963f7d28e17f72''\<rparr>]
   \<and> partsArray (transform sampleCollaborators acceptingServer sampleParams ''bucket'' ''key'' JNull
        ''id'' 5242880 5
        (initialState [\<lparr>part = 1, etag = JStr ''0cc175b9c0f1b6a831c399e269772661''\<rparr>,
                       \<lparr>part = 2, etag = JStr ''900150983cd24fb0d6963f7d28e17f72''\<rparr>] [])
        ''ab'') = [\<lparr>part = 1, etag = JStr ''0cc175b9c0f1b6a831c399e269772661''\<rparr>,
                   \<lparr>part = 2, etag = JStr ''900150983cd24fb0d6963f7d28e17f72''\<rparr>]"
proof -
  let ?a = "\<lparr>part = 1, etag = JStr ''0cc175b9c0f1b6a831c399e269772661''\<rparr>"
  let ?b = "\<lparr>part = 2, etag = JStr ''900150983cd24fb0d6963f7d28e17f72''\<rparr>"
  let ?s = "initialState [?a, ?b] [] :: string orchestrator"
  have h: "errored ?s = None
      \<and> \<not> (int (length ''abc'') < 5242880 \<and> 3 - totalSeen ?s \<noteq> int (length ''abc''))
      \<and> partsArray ?s = ?a # [?b]"
    by (simp add: initialState_def)
  have m: "etag ?a \<noteq> JStr (toLowerCase (md5_hex sampleCollaborators ''abc''))"
    by (simp add: sampleCollaborators_def toLowerCase_def lowerChar_def)
  from resume_head_removed [where s = ?s and d = "''abc''" and P = 5242880 and tot = 3
      and rec = ?a and rest = "[?b]" and c = sampleCollaborators and tr = acceptingServer
      and ps = sampleParams and bucket = "''bucket''" and key = "''key''" and ct = JNull
      and uploadId = "''id''"] h
  have r: "partsArray (transform sampleCollaborators acceptingServer sampleParams ''bucket'' ''key''
      JNull ''id'' 5242880 3 ?s ''abc'') = [?b]"
    by blast
  have h': "errored ?s \<noteq> None
      \<or> (int (length ''ab'') < 5242880 \<and> 5 - totalSeen ?s \<noteq> int (length ''ab''))"
    by (simp add: initialState_def)
  have pa: "partsArray ?s = [?a, ?b]" by (simp add: initialState_def)
  from resume_head_removed [where s = ?s and d = "''ab''" and P = 5242880 and tot = 5
      and c = sampleCollaborators and tr = acceptingServer
      and ps = sampleParams and bucket = "''bucket''" and key = "''key''" and ct = JNull
      and uploadId = "''id''"] h'
  have "partsArray (transform sampleCollaborators acceptingServer sampleParams ''bucket'' ''key''
      JNull ''id'' 5242880 5 ?s ''ab'') = partsArray ?s"
    by blast
  with m r pa show ?thesis by simp
qed

text \<open>
  The claim as first stated fails. A block shorter than the declared remainder is stopped
  by the size check while the manifest is not empty, and its head record stays. Likewise,
  once the upload of part 1 is refused, block 2 is produced while the manifest still holds
  a record, and the record stays.
\<close>

theorem resume_head_kept:
  "BlockStream2 (nat (calculatePartSize 5)) [''ab''] = [''ab'']
   \<and> partsArray (snd (streamUpload sampleCollaborators acceptingServer sampleParams ''bucket'' ''key''
        JNull ''id'' [\<lparr>part = 1, etag = JStr ''900150983cd24fb0d6963f7d28e17f72''\<rparr>] 5
        [''ab''] [])) = [\<lparr>part = 1, etag = JStr ''900150983cd24fb0d6963f7d28e17f72''\<rparr>]
   \<and> BlockStream2 (nat (calculatePartSize 5242883)) [replicate 5242880 CHR ''a'', ''abc''] =
       [replicate 5242880 CHR ''a'', ''abc'']
   \<and> partsArray (snd (streamUpload sampleCollaborators refusingServer sampleParams ''bucket'' ''key''
        JNull ''id''
        [\<lparr>part = 1, etag = JStr ''0cc175b9c0f1b6a831c399e269772661''\<rparr>,
         \<lparr>part = 2, etag = JStr ''900150983cd24fb0d6963f7d28e17f72''\<rparr>] 5242883
        [replicate 5242880 CHR ''a'', ''abc''] [])) =
       [\<lparr>part = 2, etag = JStr ''900150983cd24fb0d6963f7d28e17f72''\<rparr>]"
  by (simp add: run_defs)

end
